theory Spec2Isabelle
  imports Main "HOL-Library.AList" "HOL-Library.Sublist"
begin

section \<open>Common data\<close>

text \<open>
  Identifiers (\<open>UUID\<close>) are opaque and only compared for equality; they are modelled as
  natural numbers. A \<open>datetime\<close> is a number of seconds, and every operation takes the
  reading of the clock (\<open>datetime.utcnow()\<close>) as its argument \<open>now\<close>.
  A Python \<open>dict\<close> is an association list in insertion order: \<open>d[k] = v\<close> is
  \<open>AList.update\<close>, \<open>del d[k]\<close> is \<open>AList.delete\<close>, \<open>k in d\<close> is
  \<open>map_of d k \<noteq> None\<close>.
\<close>

type_synonym uuid = nat
type_synonym datetime = int

text \<open>A sample position is a JSON object; only its string entries are read.\<close>

type_synonym position = "(string \<times> string) list"

text \<open>\<open>models/device.py\<close>: \<open>DeviceStatus\<close> and the columns of \<open>Device\<close> the engine reads.\<close>

definition OFFLINE :: string where "OFFLINE = ''offline''"
definition ONLINE :: string where "ONLINE = ''online''"
definition BUSY :: string where "BUSY = ''busy''"

record device =
  dev_id :: uuid
  dev_device_type_id :: uuid
  dev_status :: string
  dev_is_available :: bool
  dev_current_task_id :: "uuid option"
  dev_total_runtime_seconds :: int
  dev_sample_positions :: "position list"

definition is_online :: "device \<Rightarrow> bool" where
  "is_online d \<longleftrightarrow> dev_status d = ONLINE \<and> dev_is_available d"

section \<open>ResourceManager (\<open>resource/resource_manager.py\<close>)\<close>

record resource_request =
  req_task_id :: uuid
  req_required_device_types :: "uuid list"
  req_sample_count :: int
  req_requested_at :: datetime

record resource_allocation =
  alloc_device_id :: uuid
  alloc_task_id :: uuid
  alloc_sample_positions :: "string list"
  alloc_allocated_at :: datetime

datatype error = ResourceConflict | IndexError

record resource_manager =
  active_allocations :: "(uuid \<times> resource_allocation) list"
  device_availability :: "(uuid \<times> datetime) list"
  sample_position_availability :: "(string \<times> datetime) list"
  pending_requests :: "resource_request list"

definition init_manager :: resource_manager where
  "init_manager = \<lparr>active_allocations = [], device_availability = [],
     sample_position_availability = [], pending_requests = []\<rparr>"

text \<open>The slice \<open>xs[:n]\<close> of Python, for any integer \<open>n\<close>: a negative \<open>n\<close> counts from
  the end.\<close>

definition py_slice_to :: "int \<Rightarrow> 'a list \<Rightarrow> 'a list" where
  "py_slice_to n xs =
     (if 0 \<le> n then take (nat n) xs else take (length xs - nat (- n)) xs)"

text \<open>The comprehension \<open>{device.id: device for device in devices}\<close>.\<close>

definition dict_by_id :: "device list \<Rightarrow> (uuid \<times> device) list" where
  "dict_by_id devices = foldl (\<lambda>m d. AList.update (dev_id d) d m) [] devices"

text \<open>\<open>_get_available_devices\<close>: the query over the device table \<open>session\<close>.\<close>

definition get_available_devices :: "uuid list \<Rightarrow> device list \<Rightarrow> (uuid \<times> device) list" where
  "get_available_devices required_device_types session =
     dict_by_id (filter (\<lambda>d. dev_device_type_id d \<in> set required_device_types
                              \<and> dev_status d = ONLINE \<and> dev_is_available d) session)"

definition position_name :: "position \<Rightarrow> string" where
  "position_name p = (case map_of p ''name'' of None \<Rightarrow> [] | Some n \<Rightarrow> n)"

text \<open>The names of a device's positions that are not reserved, before the slice.\<close>

definition free_position_names :: "resource_manager \<Rightarrow> device \<Rightarrow> string list" where
  "free_position_names rm d =
     filter (\<lambda>n. map_of (sample_position_availability rm) n = None)
            (map position_name (dev_sample_positions d))"

definition get_available_sample_positions ::
    "resource_manager \<Rightarrow> device \<Rightarrow> int \<Rightarrow> string list" where
  "get_available_sample_positions rm d count =
     (if dev_sample_positions d = [] then []
      else py_slice_to count (free_position_names rm d))"

text \<open>The loop of \<open>_find_available_resources\<close> that builds \<open>device_allocations\<close>; it
  raises \<open>ResourceConflict\<close> at the first selected device with too few positions.\<close>

fun device_allocations_loop ::
    "resource_manager \<Rightarrow> resource_request \<Rightarrow> device list \<Rightarrow> (uuid \<times> string list) list
      \<Rightarrow> error + (uuid \<times> string list) list" where
  "device_allocations_loop rm request [] acc = Inr acc"
| "device_allocations_loop rm request (d # ds) acc =
     (let available_positions = get_available_sample_positions rm d (req_sample_count request)
      in if int (length available_positions) < req_sample_count request
         then Inl ResourceConflict
         else device_allocations_loop rm request ds
                (acc @ [(dev_id d, py_slice_to (req_sample_count request) available_positions)]))"

text \<open>The devices \<open>_find_available_resources\<close> selects, or the conflict it raises when
  every candidate is already allocated.\<close>

definition select_devices ::
    "resource_manager \<Rightarrow> resource_request \<Rightarrow> (uuid \<times> device) list \<Rightarrow> error + device list" where
  "select_devices rm request available_devices =
     (let conflicting_devices =
            filter (\<lambda>k. map_of (active_allocations rm) k \<noteq> None) (map fst available_devices)
      in if conflicting_devices \<noteq> [] then
           (let available_non_conflicting =
                  filter (\<lambda>(k, d). k \<notin> set conflicting_devices) available_devices
            in if available_non_conflicting = [] then Inl ResourceConflict
               else Inr (take (length (req_required_device_types request))
                              (map snd available_non_conflicting)))
         else Inr (take (length (req_required_device_types request))
                        (map snd available_devices)))"

text \<open>The body of \<open>_find_available_resources\<close> inside its \<open>try\<close>: \<open>Inl\<close> is a raised
  exception.\<close>

definition find_available_resources_body ::
    "resource_manager \<Rightarrow> resource_request \<Rightarrow> device list \<Rightarrow> datetime
      \<Rightarrow> error + resource_allocation option" where
  "find_available_resources_body rm request session now =
     (let available_devices =
            get_available_devices (req_required_device_types request) session
      in if available_devices = [] then Inr None
         else case select_devices rm request available_devices of
                Inl e \<Rightarrow> Inl e
              | Inr selected_devices \<Rightarrow>
                  (case device_allocations_loop rm request selected_devices [] of
                     Inl e \<Rightarrow> Inl e
                   | Inr device_allocations \<Rightarrow>
                       (case device_allocations of
                          [] \<Rightarrow> Inl IndexError
                        | (primary_device_id, _) # _ \<Rightarrow>
                            Inr (Some \<lparr>alloc_device_id = primary_device_id,
                                       alloc_task_id = req_task_id request,
                                       alloc_sample_positions = concat (map snd device_allocations),
                                       alloc_allocated_at = now\<rparr>))))"

text \<open>\<open>_find_available_resources\<close>: its \<open>except Exception\<close> turns every exception of
  the body, \<open>ResourceConflict\<close> included, into the result \<open>None\<close>.\<close>

definition find_available_resources ::
    "resource_manager \<Rightarrow> resource_request \<Rightarrow> device list \<Rightarrow> datetime
      \<Rightarrow> resource_allocation option" where
  "find_available_resources rm request session now =
     (case find_available_resources_body rm request session now of
        Inl e \<Rightarrow> None
      | Inr r \<Rightarrow> r)"

text \<open>\<open>_allocate_resources\<close>; the lock lasts one hour.\<close>

definition allocate_resources_rm ::
    "resource_manager \<Rightarrow> resource_allocation \<Rightarrow> datetime \<Rightarrow> resource_manager" where
  "allocate_resources_rm rm allocation now =
     rm\<lparr>active_allocations :=
           AList.update (alloc_device_id allocation) allocation (active_allocations rm),
        sample_position_availability :=
           foldl (\<lambda>m p. AList.update p (now + 3600) m)
                 (sample_position_availability rm) (alloc_sample_positions allocation)\<rparr>"

text \<open>\<open>request_resources\<close>. Since \<open>_find_available_resources\<close> returns normally on
  every input, the two handlers of \<open>request_resources\<close> are never entered; what is left
  is the \<open>if allocation\<close> of its \<open>try\<close> block.\<close>

definition request_resources ::
    "resource_manager \<Rightarrow> resource_request \<Rightarrow> device list \<Rightarrow> datetime
      \<Rightarrow> resource_manager \<times> resource_allocation option" where
  "request_resources rm request session now =
     (case find_available_resources rm request session now of
        Some allocation \<Rightarrow> (allocate_resources_rm rm allocation now, Some allocation)
      | None \<Rightarrow> (rm\<lparr>pending_requests := pending_requests rm @ [request]\<rparr>, None))"

text \<open>The loop of \<open>_process_pending_requests\<close> over the backlog, with the list
  \<open>remaining_requests\<close> it builds. The source opens a session of its own for every
  request; \<open>session\<close> is the content of the device table, which does not change while
  the call runs.\<close>

fun process_pending_loop ::
    "resource_manager \<Rightarrow> device list \<Rightarrow> datetime \<Rightarrow> resource_request list
      \<Rightarrow> resource_request list \<Rightarrow> resource_manager \<times> resource_request list" where
  "process_pending_loop rm session now [] remaining_requests = (rm, remaining_requests)"
| "process_pending_loop rm session now (request # rest) remaining_requests =
     (case find_available_resources rm request session now of
        Some allocation \<Rightarrow>
          process_pending_loop (allocate_resources_rm rm allocation now) session now rest
            remaining_requests
      | None \<Rightarrow>
          process_pending_loop rm session now rest (remaining_requests @ [request]))"

definition process_pending_requests ::
    "resource_manager \<Rightarrow> device list \<Rightarrow> datetime \<Rightarrow> resource_manager" where
  "process_pending_requests rm session now =
     (case process_pending_loop rm session now (pending_requests rm) [] of
        (rm', remaining_requests) \<Rightarrow> rm'\<lparr>pending_requests := remaining_requests\<rparr>)"

text \<open>The loop of \<open>release_resources\<close> that frees the positions of an allocation.\<close>

definition release_positions :: "(string \<times> datetime) list \<Rightarrow> string list \<Rightarrow> (string \<times> datetime) list" where
  "release_positions availability positions =
     foldl (\<lambda>m p. if map_of m p \<noteq> None then AList.delete p m else m) availability positions"

text \<open>The state of \<open>release_resources\<close> after the allocation is removed and before the
  backlog is processed.\<close>

definition remove_allocation ::
    "resource_manager \<Rightarrow> uuid \<Rightarrow> resource_allocation \<Rightarrow> resource_manager" where
  "remove_allocation rm device_id allocation =
     rm\<lparr>sample_position_availability :=
           release_positions (sample_position_availability rm) (alloc_sample_positions allocation),
        active_allocations := AList.delete device_id (active_allocations rm)\<rparr>"

definition release_resources ::
    "resource_manager \<Rightarrow> uuid \<Rightarrow> device list \<Rightarrow> datetime \<Rightarrow> resource_manager" where
  "release_resources rm device_id session now =
     (case map_of (active_allocations rm) device_id of
        Some allocation \<Rightarrow>
          process_pending_requests (remove_allocation rm device_id allocation) session now
      | None \<Rightarrow> rm)"

section \<open>Job (\<open>models/job.py\<close>)\<close>

definition JOB_CREATED :: string where "JOB_CREATED = ''created''"
definition JOB_QUEUED :: string where "JOB_QUEUED = ''queued''"
definition JOB_RUNNING :: string where "JOB_RUNNING = ''running''"
definition JOB_COMPLETED :: string where "JOB_COMPLETED = ''completed''"
definition JOB_FAILED :: string where "JOB_FAILED = ''failed''"
definition JOB_CANCELLED :: string where "JOB_CANCELLED = ''cancelled''"
definition JOB_PAUSED :: string where "JOB_PAUSED = ''paused''"

text \<open>The columns of \<open>Job\<close> the engine reads and writes; the counters are SQL integers.\<close>

record job =
  job_id :: uuid
  job_status :: string
  job_progress_percentage :: int
  job_total_tasks :: int
  job_completed_tasks :: int
  job_failed_tasks :: int
  job_cancelled_tasks :: int
  job_completed_at :: "datetime option"

definition is_completed :: "job \<Rightarrow> bool" where
  "is_completed j \<longleftrightarrow> job_status j \<in> set [JOB_COMPLETED, JOB_FAILED, JOB_CANCELLED]"

text \<open>\<open>calculate_progress\<close>; \<open>//\<close> is the floor division of Python, which is \<open>div\<close> on
  \<open>int\<close>.\<close>

definition calculate_progress :: "job \<Rightarrow> int" where
  "calculate_progress j =
     (if job_total_tasks j = 0 then (if is_completed j then 100 else 0)
      else (let completed_progress = job_completed_tasks j * 100;
                failed_progress = job_failed_tasks j * 50;
                cancelled_progress = job_cancelled_tasks j * 25;
                total_progress = completed_progress + failed_progress + cancelled_progress
            in min 100 (total_progress div job_total_tasks j)))"

section \<open>Task (\<open>models/task.py\<close>) and the store\<close>

definition TASK_PENDING :: string where "TASK_PENDING = ''pending''"
definition TASK_READY :: string where "TASK_READY = ''ready''"
definition TASK_RUNNING :: string where "TASK_RUNNING = ''running''"
definition TASK_COMPLETED :: string where "TASK_COMPLETED = ''completed''"
definition TASK_FAILED :: string where "TASK_FAILED = ''failed''"
definition TASK_CANCELLED :: string where "TASK_CANCELLED = ''cancelled''"
definition TASK_RETRYING :: string where "TASK_RETRYING = ''retrying''"

text \<open>The columns of \<open>TaskTemplate\<close> the engine reads.\<close>

record task_template =
  tt_required_device_types :: "uuid list"
  tt_estimated_duration :: "int option"

text \<open>The result dictionary of a task implementation. A field is \<open>None\<close> when the key is
  absent; \<open>error_message\<close> may also be present with the value \<open>None\<close>. Output values are
  opaque.\<close>

record task_result =
  res_status :: "string option"
  res_outputs :: "(string \<times> string) list option"
  res_execution_time :: "int option"
  res_error_message :: "string option option"

text \<open>The columns of \<open>Task\<close> the engine reads and writes; \<open>task_template\<close> is the
  loaded relationship, \<open>None\<close> when there is no template.\<close>

record task =
  task_id :: uuid
  task_job_id :: uuid
  task_status :: string
  task_inputs :: "(string \<times> string) list"
  task_outputs :: "(string \<times> string) list option"
  task_result_data :: "task_result option"
  task_started_at :: "datetime option"
  task_completed_at :: "datetime option"
  task_error_message :: "string option"
  task_execution_time :: "int option"
  task_assigned_device_id :: "uuid option"
  task_prev_tasks :: "uuid list"
  task_template :: "task_template option"

text \<open>A published task event: the task and the event type (the payload is left out).\<close>

datatype event = TaskEvent uuid string

text \<open>What the components share: the tables of the entity store as seen through a
  session, the events published so far, and the coroutines handed to
  \<open>asyncio.create_task\<close> (each a \<open>_release_task_resources\<close> for a task id) that have
  not run yet.\<close>

record world =
  w_tasks :: "task list"
  w_jobs :: "job list"
  w_devices :: "device list"
  w_events :: "event list"
  w_scheduled :: "uuid list"

text \<open>\<open>query(...).filter(... == id).first()\<close> is \<open>find\<close>; assigning to the attributes
  of the row it returned changes that row of the table.\<close>

fun update_first :: "('a \<Rightarrow> bool) \<Rightarrow> ('a \<Rightarrow> 'a) \<Rightarrow> 'a list \<Rightarrow> 'a list" where
  "update_first P f [] = []"
| "update_first P f (x # xs) = (if P x then f x # xs else x # update_first P f xs)"

definition first_task :: "world \<Rightarrow> uuid \<Rightarrow> task option" where
  "first_task w i = find (\<lambda>t. task_id t = i) (w_tasks w)"

definition first_job :: "world \<Rightarrow> uuid \<Rightarrow> job option" where
  "first_job w i = find (\<lambda>j. job_id j = i) (w_jobs w)"

definition first_device :: "world \<Rightarrow> uuid \<Rightarrow> device option" where
  "first_device w i = find (\<lambda>d. dev_id d = i) (w_devices w)"

section \<open>TaskExecutor (\<open>scheduler/task_executor.py\<close>)\<close>

text \<open>The number of rows of \<open>query(Task).filter(Task.job_id == j).count()\<close>.\<close>

definition count_job_tasks :: "world \<Rightarrow> uuid \<Rightarrow> int" where
  "count_job_tasks w j = int (length (filter (\<lambda>t. task_job_id t = j) (w_tasks w)))"

definition count_completed_job_tasks :: "world \<Rightarrow> uuid \<Rightarrow> int" where
  "count_completed_job_tasks w j =
     int (length (filter (\<lambda>t. task_job_id t = j \<and> task_status t = TASK_COMPLETED) (w_tasks w)))"

text \<open>The task row as \<open>_process_task_result\<close> writes it.\<close>

definition store_result :: "task \<Rightarrow> task_result \<Rightarrow> datetime \<Rightarrow> task" where
  "store_result t result now =
     t\<lparr>task_status := (if res_status result = Some ''completed'' then TASK_COMPLETED
                        else TASK_FAILED),
        task_completed_at := Some now,
        task_outputs := Some (case res_outputs result of None \<Rightarrow> [] | Some os \<Rightarrow> os),
        task_execution_time := res_execution_time result,
        task_result_data := Some result,
        task_error_message :=
          (if res_status result \<noteq> Some ''completed''
           then (case res_error_message result of None \<Rightarrow> Some ''Task failed'' | Some m \<Rightarrow> m)
           else task_error_message t)\<rparr>"

text \<open>The job row as \<open>_process_task_result\<close> writes it. The percentage is the result
  of the floating-point expression \<open>int((completed_tasks / total_tasks) * 100)\<close>, which
  is not computed here: \<open>percentage\<close> stands for it.\<close>

definition update_job_progress ::
    "(int \<Rightarrow> int \<Rightarrow> int) \<Rightarrow> world \<Rightarrow> job \<Rightarrow> datetime \<Rightarrow> job" where
  "update_job_progress percentage w j now =
     (let total_tasks = count_job_tasks w (job_id j);
          completed_tasks = count_completed_job_tasks w (job_id j);
          j1 = j\<lparr>job_completed_tasks := completed_tasks,
                 job_progress_percentage :=
                   (if total_tasks > 0 then percentage completed_tasks total_tasks else 100)\<rparr>
      in if completed_tasks = total_tasks
         then j1\<lparr>job_status := JOB_COMPLETED, job_completed_at := Some now\<rparr>
         else j1)"

text \<open>\<open>_process_task_result\<close>, with the store and the event bus working.\<close>

definition process_task_result ::
    "(int \<Rightarrow> int \<Rightarrow> int) \<Rightarrow> world \<Rightarrow> uuid \<Rightarrow> task_result \<Rightarrow> datetime \<Rightarrow> world \<times> bool" where
  "process_task_result percentage w tid result now =
     (case first_task w tid of
        None \<Rightarrow> (w, False)
      | Some t \<Rightarrow>
          (let t' = store_result t result now;
               w1 = w\<lparr>w_tasks := update_first (\<lambda>x. task_id x = tid) (\<lambda>_. t') (w_tasks w)\<rparr>;
               w2 = (case first_job w1 (task_job_id t') of
                       None \<Rightarrow> w1
                     | Some j \<Rightarrow>
                         w1\<lparr>w_jobs := update_first (\<lambda>x. job_id x = job_id j)
                                         (\<lambda>_. update_job_progress percentage w1 j now)
                                         (w_jobs w1)\<rparr>)
           in (w2\<lparr>w_events := w_events w2 @
                      [TaskEvent tid (if task_status t' = TASK_COMPLETED then ''completed''
                                      else ''failed'')]\<rparr>,
               True)))"

text \<open>\<open>_release_task_resources\<close>.\<close>

definition release_task_resources :: "world \<Rightarrow> uuid \<Rightarrow> world" where
  "release_task_resources w tid =
     (case first_task w tid of
        None \<Rightarrow> w
      | Some t \<Rightarrow>
          (case task_assigned_device_id t of
             None \<Rightarrow> w
           | Some did \<Rightarrow>
               (case first_device w did of
                  None \<Rightarrow> w
                | Some d \<Rightarrow>
                    w\<lparr>w_devices := update_first (\<lambda>x. dev_id x = did)
                         (\<lambda>_. d\<lparr>dev_status := ''online'', dev_current_task_id := None,
                                 dev_total_runtime_seconds := dev_total_runtime_seconds d +
                                   (case task_execution_time t of None \<Rightarrow> 0 | Some e \<Rightarrow> e)\<rparr>)
                         (w_devices w)\<rparr>)))"

text \<open>\<open>_handle_task_error\<close>, the path taken when executing a task raises.\<close>

definition handle_task_error :: "world \<Rightarrow> uuid \<Rightarrow> string \<Rightarrow> datetime \<Rightarrow> world" where
  "handle_task_error w tid error_message now =
     (case first_task w tid of
        None \<Rightarrow> w
      | Some t \<Rightarrow>
          (let t' = t\<lparr>task_status := TASK_FAILED, task_completed_at := Some now,
                       task_error_message := Some error_message\<rparr>;
               w1 = w\<lparr>w_tasks := update_first (\<lambda>x. task_id x = tid) (\<lambda>_. t') (w_tasks w)\<rparr>;
               w2 = (case first_job w1 (task_job_id t') of
                       None \<Rightarrow> w1
                     | Some j \<Rightarrow>
                         (let j1 = j\<lparr>job_failed_tasks := job_failed_tasks j + 1\<rparr>;
                              j2 = j1\<lparr>job_progress_percentage := calculate_progress j1\<rparr>
                          in w1\<lparr>w_jobs := update_first (\<lambda>x. job_id x = job_id j) (\<lambda>_. j2)
                                             (w_jobs w1)\<rparr>));
               w3 = w2\<lparr>w_events := w_events w2 @ [TaskEvent tid ''failed'']\<rparr>
           in release_task_resources w3 tid))"

text \<open>\<open>cancel_task\<close>. It is a plain function that hands the release of the device to
  \<open>asyncio.create_task\<close>, which needs a running event loop: \<open>loop_running\<close> tells
  whether the caller is inside one. With a loop, the release is scheduled and has not run
  when \<open>cancel_task\<close> returns. Without one, \<open>create_task\<close> raises inside the \<open>try\<close>,
  before \<open>session.commit()\<close>: the handler returns \<open>False\<close>, and the two assignments to
  the task row, made in a session that is closed uncommitted, are lost.\<close>

definition cancel_task :: "bool \<Rightarrow> world \<Rightarrow> uuid \<Rightarrow> datetime \<Rightarrow> world \<times> bool" where
  "cancel_task loop_running w tid now =
     (case first_task w tid of
        None \<Rightarrow> (w, False)
      | Some t \<Rightarrow>
          if task_status t = TASK_RUNNING then
            (if loop_running then
               (w\<lparr>w_tasks := update_first (\<lambda>x. task_id x = tid)
                     (\<lambda>_. t\<lparr>task_status := TASK_CANCELLED, task_completed_at := Some now\<rparr>)
                     (w_tasks w),
                  w_scheduled := w_scheduled w @ [tid],
                  w_events := w_events w @ [TaskEvent tid ''cancelled'']\<rparr>,
                True)
             else (w, False))
          else (w, False))"

section \<open>ResourceScheduler (\<open>scheduler/scheduler.py\<close>)\<close>

text \<open>The scheduler keeps its own table of active allocations, apart from the one of
  the ResourceManager.\<close>

record scheduler_allocation =
  sa_device_id :: uuid
  sa_sample_positions :: "string list"
  sa_allocated_at :: datetime

record resource_scheduler =
  sched_active_allocations :: "(uuid \<times> scheduler_allocation) list"
  sched_running :: bool

text \<open>The reason texts of a \<open>SchedulingDecision\<close>, with the values they quote.\<close>

datatype reason =
    TaskNotFound
  | InvalidState string
  | DependenciesNotSatisfied
  | TemplateNotFound
  | InsufficientDevices nat nat
  | AssignedDeviceNotAvailable uuid
  | DeviceAlreadyAllocated uuid
  | ResourcesAvailable
  | ReadyToRun

record scheduling_decision =
  sd_task_id :: uuid
  sd_can_run :: bool
  sd_reason :: reason
  sd_estimated_start :: "datetime option"

text \<open>\<open>_check_dependencies_satisfied\<close>: the loop returns \<open>False\<close> at the first
  predecessor that is missing or not completed.\<close>

definition check_dependencies_satisfied :: "world \<Rightarrow> task \<Rightarrow> bool" where
  "check_dependencies_satisfied w t =
     (if task_prev_tasks t = [] then True
      else list_all (\<lambda>prev_task_id.
             case first_task w prev_task_id of
               None \<Rightarrow> False
             | Some prev_task \<Rightarrow> task_status prev_task = TASK_COMPLETED)
           (task_prev_tasks t))"

text \<open>\<open>_check_resource_availability\<close>.\<close>

definition check_resource_availability ::
    "resource_scheduler \<Rightarrow> world \<Rightarrow> task \<Rightarrow> bool \<times> reason" where
  "check_resource_availability sched w t =
     (case task_template t of
        None \<Rightarrow> (False, TemplateNotFound)
      | Some template \<Rightarrow>
          (let required_device_types = tt_required_device_types template;
               available_devices =
                 filter (\<lambda>d. dev_device_type_id d \<in> set required_device_types
                              \<and> dev_status d = ONLINE \<and> dev_is_available d) (w_devices w)
           in if required_device_types \<noteq> []
                 \<and> length available_devices < length required_device_types
              then (False, InsufficientDevices (length required_device_types)
                             (length available_devices))
              else (case task_assigned_device_id t of
                      None \<Rightarrow> (True, ResourcesAvailable)
                    | Some assigned_device_id \<Rightarrow>
                        (case first_device w assigned_device_id of
                           None \<Rightarrow> (False, AssignedDeviceNotAvailable assigned_device_id)
                         | Some d \<Rightarrow>
                             if \<not> is_online d
                             then (False, AssignedDeviceNotAvailable assigned_device_id)
                             else if map_of (sched_active_allocations sched) (dev_id d) \<noteq> None
                             then (False, DeviceAlreadyAllocated (dev_id d))
                             else (True, ResourcesAvailable)))))"

text \<open>\<open>_estimate_start_time\<close>; the duration of a template is in minutes. Adding to a
  missing \<open>started_at\<close> raises, and the handler returns the current time.\<close>

definition estimate_start_time :: "world \<Rightarrow> task \<Rightarrow> datetime \<Rightarrow> datetime" where
  "estimate_start_time w t now =
     (case task_assigned_device_id t of
        None \<Rightarrow> now
      | Some assigned_device_id \<Rightarrow>
          (case first_device w assigned_device_id of
             None \<Rightarrow> now
           | Some d \<Rightarrow>
               (case dev_current_task_id d of
                  None \<Rightarrow> now
                | Some current_task_id \<Rightarrow>
                    (case first_task w current_task_id of
                       None \<Rightarrow> now
                     | Some current_task \<Rightarrow>
                         if task_status current_task \<in> set [TASK_RUNNING, TASK_READY] then
                           (case Option.bind (task_template current_task) tt_estimated_duration of
                              None \<Rightarrow> now + 30 * 60
                            | Some estimated_duration \<Rightarrow>
                                if estimated_duration = 0 then now + 30 * 60
                                else (case task_started_at current_task of
                                        None \<Rightarrow> now
                                      | Some started_at \<Rightarrow>
                                          max now (started_at + estimated_duration * 60)))
                         else now))))"

text \<open>\<open>can_task_run\<close>.\<close>

definition can_task_run ::
    "resource_scheduler \<Rightarrow> world \<Rightarrow> uuid \<Rightarrow> datetime \<Rightarrow> scheduling_decision" where
  "can_task_run sched w tid now =
     (case first_task w tid of
        None \<Rightarrow> \<lparr>sd_task_id = tid, sd_can_run = False, sd_reason = TaskNotFound,
                  sd_estimated_start = None\<rparr>
      | Some t \<Rightarrow>
          if task_status t \<notin> set [TASK_PENDING, TASK_READY] then
            \<lparr>sd_task_id = tid, sd_can_run = False, sd_reason = InvalidState (task_status t),
             sd_estimated_start = None\<rparr>
          else if \<not> check_dependencies_satisfied w t then
            \<lparr>sd_task_id = tid, sd_can_run = False, sd_reason = DependenciesNotSatisfied,
             sd_estimated_start = None\<rparr>
          else (let resource_available = check_resource_availability sched w t
                in if \<not> fst resource_available then
                     \<lparr>sd_task_id = tid, sd_can_run = False, sd_reason = snd resource_available,
                      sd_estimated_start = None\<rparr>
                   else
                     \<lparr>sd_task_id = tid, sd_can_run = True, sd_reason = ReadyToRun,
                      sd_estimated_start = Some (estimate_start_time w t now)\<rparr>))"

text \<open>\<open>allocate_resources\<close> of the scheduler.\<close>

definition allocate_resources ::
    "resource_scheduler \<Rightarrow> world \<Rightarrow> uuid \<Rightarrow> datetime
      \<Rightarrow> (resource_scheduler \<times> world) \<times> bool" where
  "allocate_resources sched w tid now =
     (case first_task w tid of
        None \<Rightarrow> ((sched, w), False)
      | Some t \<Rightarrow>
          (case task_assigned_device_id t of
             None \<Rightarrow> ((sched, w), False)
           | Some assigned_device_id \<Rightarrow>
               (case first_device w assigned_device_id of
                  None \<Rightarrow> ((sched, w), False)
                | Some d \<Rightarrow>
                    ((sched\<lparr>sched_active_allocations :=
                              AList.update (dev_id d)
                                \<lparr>sa_device_id = dev_id d, sa_sample_positions = [],
                                 sa_allocated_at = now\<rparr>
                                (sched_active_allocations sched)\<rparr>,
                      w\<lparr>w_devices := update_first (\<lambda>x. dev_id x = assigned_device_id)
                             (\<lambda>_. d\<lparr>dev_status := BUSY, dev_current_task_id := Some tid\<rparr>)
                             (w_devices w),
                        w_tasks := update_first (\<lambda>x. task_id x = tid)
                             (\<lambda>_. t\<lparr>task_status := TASK_RUNNING, task_started_at := Some now\<rparr>)
                             (w_tasks w),
                        w_events := w_events w @ [TaskEvent tid ''started'']\<rparr>),
                     True))))"

text \<open>One pass of \<open>run_scheduler_loop\<close>: the tasks that are pending or ready when the
  pass starts are visited in table order.\<close>

fun scheduler_pass_loop ::
    "resource_scheduler \<Rightarrow> world \<Rightarrow> datetime \<Rightarrow> uuid list \<Rightarrow> resource_scheduler \<times> world" where
  "scheduler_pass_loop sched w now [] = (sched, w)"
| "scheduler_pass_loop sched w now (tid # tids) =
     (if sd_can_run (can_task_run sched w tid now)
      then (case allocate_resources sched w tid now of
              ((sched', w'), started) \<Rightarrow> scheduler_pass_loop sched' w' now tids)
      else scheduler_pass_loop sched w now tids)"

definition scheduler_pass ::
    "resource_scheduler \<Rightarrow> world \<Rightarrow> datetime \<Rightarrow> resource_scheduler \<times> world" where
  "scheduler_pass sched w now =
     scheduler_pass_loop sched w now
       (map task_id (filter (\<lambda>t. task_status t \<in> set [TASK_PENDING, TASK_READY]) (w_tasks w)))"

section \<open>Mutual exclusion and the reachable states\<close>

text \<open>The lists of a family are pairwise disjoint.\<close>

fun disjoint_lists :: "'a list list \<Rightarrow> bool" where
  "disjoint_lists [] = True"
| "disjoint_lists (xs # xss) = ((\<forall>ys \<in> set xss. set xs \<inter> set ys = {}) \<and> disjoint_lists xss)"

text \<open>No two active allocations name the same device, and no two of them share the
  name of a sample position.\<close>

definition mutual_exclusion :: "resource_manager \<Rightarrow> bool" where
  "mutual_exclusion rm \<longleftrightarrow>
     distinct (map (alloc_device_id \<circ> snd) (active_allocations rm)) \<and>
     disjoint_lists (map (alloc_sample_positions \<circ> snd) (active_allocations rm))"

text \<open>The invariant that carries the proof: every allocation is stored under its own
  device id, every position of an active allocation is reserved, and the positions of
  allocations under different keys are disjoint.\<close>

definition allocations_consistent :: "resource_manager \<Rightarrow> bool" where
  "allocations_consistent rm \<longleftrightarrow>
     distinct (map fst (active_allocations rm)) \<and>
     (\<forall>(k, a) \<in> set (active_allocations rm).
        alloc_device_id a = k \<and>
        (\<forall>p \<in> set (alloc_sample_positions a). map_of (sample_position_availability rm) p \<noteq> None)) \<and>
     (\<forall>(k, a) \<in> set (active_allocations rm). \<forall>(k', a') \<in> set (active_allocations rm).
        k \<noteq> k' \<longrightarrow> set (alloc_sample_positions a) \<inter> set (alloc_sample_positions a') = {})"

text \<open>The states a manager reaches from the empty one by the public operations
  (\<open>optimize_allocation\<close> is a call of \<open>_process_pending_requests\<close>), each against any
  content of the device table and at any time.\<close>

inductive reachable :: "resource_manager \<Rightarrow> bool" where
  reach_init: "reachable init_manager"
| reach_request: "reachable rm \<Longrightarrow> reachable (fst (request_resources rm request session now))"
| reach_release: "reachable rm \<Longrightarrow> reachable (release_resources rm device_id session now)"
| reach_reprocess: "reachable rm \<Longrightarrow> reachable (process_pending_requests rm session now)"

section \<open>Retrying the backlog, as the specification words it\<close>











section \<open>A small lab\<close>

text \<open>A concrete lab used to run the model: an online furnace with two sample
  positions, an online hotplate with one, two tasks that need a device of the furnace's
  type and one that needs a hotplate.\<close>

definition furnace :: device where
  "furnace = \<lparr>dev_id = 1, dev_device_type_id = 10, dev_status = ONLINE,
     dev_is_available = True, dev_current_task_id = None, dev_total_runtime_seconds = 0,
     dev_sample_positions = [[(''name'', ''A1'')], [(''name'', ''A2'')]]\<rparr>"

definition heating_request :: resource_request where
  "heating_request = \<lparr>req_task_id = 100, req_required_device_types = [10],
     req_sample_count = 1, req_requested_at = 0\<rparr>"

definition annealing_request :: resource_request where
  "annealing_request = \<lparr>req_task_id = 101, req_required_device_types = [10],
     req_sample_count = 1, req_requested_at = 5\<rparr>"

definition hotplate :: device where
  "hotplate = \<lparr>dev_id = 2, dev_device_type_id = 20, dev_status = ONLINE,
     dev_is_available = True, dev_current_task_id = None, dev_total_runtime_seconds = 0,
     dev_sample_positions = [[(''name'', ''B1'')]]\<rparr>"

definition stirring_request :: resource_request where
  "stirring_request = \<lparr>req_task_id = 102, req_required_device_types = [20],
     req_sample_count = 1, req_requested_at = 6\<rparr>"

text \<open>The manager after the heating task got the furnace and the stirring task the
  hotplate.\<close>

definition full_manager :: resource_manager where
  "full_manager =
     fst (request_resources
            (fst (request_resources init_manager heating_request [furnace, hotplate] 0))
            stirring_request [furnace, hotplate] 6)"

text \<open>The manager after the heating task got the furnace and the annealing task was
  queued behind it.\<close>

definition busy_manager :: resource_manager where
  "busy_manager =
     fst (request_resources (fst (request_resources init_manager heating_request [furnace] 0))
            annealing_request [furnace] 5)"

text \<open>A request for more sample positions than the furnace has.\<close>

definition bulk_request :: resource_request where
  "bulk_request = \<lparr>req_task_id = 103, req_required_device_types = [10],
     req_sample_count = 3, req_requested_at = 0\<rparr>"



text \<open>A job with four tasks: two completed, one failed, one cancelled.\<close>

definition synthesis_job :: job where
  "synthesis_job = \<lparr>job_id = 7, job_status = JOB_RUNNING, job_progress_percentage = 0,
     job_total_tasks = 4, job_completed_tasks = 2, job_failed_tasks = 1,
     job_cancelled_tasks = 1, job_completed_at = None\<rparr>"

text \<open>A job of two steps: the weighing task is completed, the sintering task runs on
  the furnace. \<open>exact_percentage\<close> computes the percentage in exact arithmetic.\<close>

definition exact_percentage :: "int \<Rightarrow> int \<Rightarrow> int" where
  "exact_percentage completed_tasks total_tasks = completed_tasks * 100 div total_tasks"

definition two_step_job :: job where
  "two_step_job = \<lparr>job_id = 8, job_status = JOB_RUNNING, job_progress_percentage = 50,
     job_total_tasks = 2, job_completed_tasks = 1, job_failed_tasks = 0,
     job_cancelled_tasks = 0, job_completed_at = None\<rparr>"

definition weighing_task :: task where
  "weighing_task = \<lparr>task_id = 99, task_job_id = 8, task_status = TASK_COMPLETED,
     task_inputs = [], task_outputs = Some [], task_result_data = None,
     task_started_at = Some 0, task_completed_at = Some 30, task_error_message = None,
     task_execution_time = Some 30, task_assigned_device_id = None, task_prev_tasks = [],
     task_template = None\<rparr>"

definition sintering_task :: task where
  "sintering_task = \<lparr>task_id = 100, task_job_id = 8, task_status = TASK_RUNNING,
     task_inputs = [], task_outputs = None, task_result_data = None,
     task_started_at = Some 40, task_completed_at = None, task_error_message = None,
     task_execution_time = None, task_assigned_device_id = Some 1,
     task_prev_tasks = [99],
     task_template = Some \<lparr>tt_required_device_types = [10], tt_estimated_duration = Some 60\<rparr>\<rparr>"

definition lab_world :: world where
  "lab_world = \<lparr>w_tasks = [weighing_task, sintering_task], w_jobs = [two_step_job],
     w_devices = [furnace\<lparr>dev_status := BUSY, dev_current_task_id := Some 100\<rparr>],
     w_events = [], w_scheduled = []\<rparr>"

definition failed_result :: task_result where
  "failed_result = \<lparr>res_status = Some ''failed'', res_outputs = None,
     res_execution_time = Some 12, res_error_message = Some (Some [])\<rparr>"

text \<open>Results of a task implementation: a failure with an empty message (above), a
  success, and a failure without any message.\<close>

definition completed_result :: task_result where
  "completed_result = \<lparr>res_status = Some ''completed'', res_outputs = Some [(''mass'', ''1.2'')],
     res_execution_time = Some 50, res_error_message = None\<rparr>"

definition silent_failure :: task_result where
  "silent_failure = \<lparr>res_status = Some ''failed'', res_outputs = None,
     res_execution_time = None, res_error_message = None\<rparr>"

text \<open>Two tasks waiting for the furnace: the mixing task has no device assigned, the
  drying task is assigned the furnace. The stale scheduler still holds an allocation of
  the furnace, which is online again.\<close>

definition mixing_task :: task where
  "mixing_task = \<lparr>task_id = 101, task_job_id = 9, task_status = TASK_PENDING,
     task_inputs = [], task_outputs = None, task_result_data = None,
     task_started_at = None, task_completed_at = None, task_error_message = None,
     task_execution_time = None, task_assigned_device_id = None, task_prev_tasks = [],
     task_template = Some \<lparr>tt_required_device_types = [10], tt_estimated_duration = Some 20\<rparr>\<rparr>"

definition drying_task :: task where
  "drying_task = \<lparr>task_id = 102, task_job_id = 9, task_status = TASK_READY,
     task_inputs = [], task_outputs = None, task_result_data = None,
     task_started_at = None, task_completed_at = None, task_error_message = None,
     task_execution_time = None, task_assigned_device_id = Some 1, task_prev_tasks = [],
     task_template = Some \<lparr>tt_required_device_types = [10], tt_estimated_duration = Some 20\<rparr>\<rparr>"

definition idle_world :: world where
  "idle_world = \<lparr>w_tasks = [mixing_task, drying_task], w_jobs = [],
     w_devices = [furnace], w_events = [], w_scheduled = []\<rparr>"

definition fresh_scheduler :: resource_scheduler where
  "fresh_scheduler = \<lparr>sched_active_allocations = [], sched_running = True\<rparr>"

definition stale_scheduler :: resource_scheduler where
  "stale_scheduler = \<lparr>sched_active_allocations =
       [(1, \<lparr>sa_device_id = 1, sa_sample_positions = [], sa_allocated_at = 0\<rparr>)],
     sched_running = True\<rparr>"










section \<open>Idempotent release\<close>

text \<open>
  Claim C7. Releasing a device that has no active allocation returns normally (the model
  of \<open>release_resources\<close> is total) and returns the manager it was given: the active
  allocations, the reserved positions and the backlog are the same.
\<close>

theorem release_resources_unallocated_noop:
  "map_of (active_allocations rm) device_id = None \<Longrightarrow>
   release_resources rm device_id session now = rm"
  by (simp add: release_resources_def)

lemma busy_manager_value:
  "busy_manager =
     \<lparr>active_allocations =
        [(1, \<lparr>alloc_device_id = 1, alloc_task_id = 100, alloc_sample_positions = [''A1''],
              alloc_allocated_at = 0\<rparr>)],
      device_availability = [],
      sample_position_availability = [(''A1'', 3600)],
      pending_requests = [annealing_request]\<rparr>"
  by code_simp

theorem release_resources_unallocated_noop_witness:
  "map_of (active_allocations busy_manager) 2 = None \<and>
   active_allocations busy_manager \<noteq> [] \<and>
   release_resources busy_manager 2 [furnace] 7 = busy_manager"
proof -
  have h: "map_of (active_allocations busy_manager) 2 = None"
    by (simp add: busy_manager_value)
  have "active_allocations busy_manager \<noteq> []"
    by (simp add: busy_manager_value)
  with h release_resources_unallocated_noop [OF h, of "[furnace]" 7] show ?thesis by simp
qed

section \<open>Mutual exclusion of active allocations\<close>

lemma set_update_subset: "set (AList.update k v al) \<subseteq> insert (k, v) (set al)"
  by (induction al) auto

lemma dict_by_id_aux:
  "(k, d) \<in> set (foldl (\<lambda>m d. AList.update (dev_id d) d m) acc ds) \<Longrightarrow>
   (k, d) \<in> set acc \<or> (k = dev_id d \<and> d \<in> set ds)"
proof (induction ds arbitrary: acc)
  case Nil
  then show ?case by simp
next
  case (Cons x xs)
  from Cons.IH[OF Cons.prems[simplified]] show ?case
    using set_update_subset[of "dev_id x" x acc] by auto
qed

lemma dict_by_id_entry: "(k, d) \<in> set (dict_by_id ds) \<Longrightarrow> k = dev_id d \<and> d \<in> set ds"
  using dict_by_id_aux[of k d "[]" ds] by (simp add: dict_by_id_def)

lemma get_available_devices_entry:
  "(k, d) \<in> set (get_available_devices tys session) \<Longrightarrow>
   k = dev_id d \<and> d \<in> set session \<and> dev_device_type_id d \<in> set tys \<and> is_online d"
  unfolding get_available_devices_def is_online_def
  by (drule dict_by_id_entry) auto

lemma select_devices_free:
  assumes "select_devices rm request av = Inr sel"
    and "\<And>k d. (k, d) \<in> set av \<Longrightarrow> k = dev_id d"
    and "d \<in> set sel"
  shows "map_of (active_allocations rm) (dev_id d) = None \<and> (dev_id d, d) \<in> set av"
proof -
  let ?conf = "filter (\<lambda>k. map_of (active_allocations rm) k \<noteq> None) (map fst av)"
  let ?anc = "filter (\<lambda>(k, d). k \<notin> set ?conf) av"
  show ?thesis
  proof (cases "?conf = []")
    case True
    with assms(1) have sel: "sel = take (length (req_required_device_types request)) (map snd av)"
      by (simp add: select_devices_def)
    with assms(3) have "d \<in> snd ` set av" by (auto dest: in_set_takeD)
    then obtain k where kd: "(k, d) \<in> set av" by force
    with assms(2) have k: "k = dev_id d" by blast
    from True kd have "map_of (active_allocations rm) k = None"
      by (force simp: filter_empty_conv)
    with k kd show ?thesis by simp
  next
    case False
    with assms(1) have sel: "sel = take (length (req_required_device_types request)) (map snd ?anc)"
      by (auto simp: select_devices_def Let_def split: if_splits)
    with assms(3) have "d \<in> snd ` set ?anc" by (auto dest: in_set_takeD)
    then obtain k where kd: "(k, d) \<in> set av" and nc: "k \<notin> set ?conf" by force
    with assms(2) have k: "k = dev_id d" by blast
    from kd nc have "map_of (active_allocations rm) k = None" by force
    with k kd show ?thesis by simp
  qed
qed

lemma set_py_slice_to: "set (py_slice_to n xs) \<subseteq> set xs"
  by (auto simp: py_slice_to_def dest: in_set_takeD)

lemma available_positions_free:
  "p \<in> set (get_available_sample_positions rm d c) \<Longrightarrow>
   map_of (sample_position_availability rm) p = None"
  using set_py_slice_to[of c "free_position_names rm d"]
  by (auto simp: get_available_sample_positions_def free_position_names_def split: if_splits)

lemma device_allocations_loop_result:
  "device_allocations_loop rm request ds acc = Inr das \<Longrightarrow>
   map fst das = map fst acc @ map dev_id ds \<and>
   (\<forall>p \<in> set (concat (map snd das)).
      p \<in> set (concat (map snd acc)) \<or> map_of (sample_position_availability rm) p = None)"
proof (induction ds arbitrary: acc)
  case Nil
  then show ?case by auto
next
  case (Cons d ds)
  let ?ap = "get_available_sample_positions rm d (req_sample_count request)"
  from Cons.prems have ok: "\<not> int (length ?ap) < req_sample_count request"
    and rec: "device_allocations_loop rm request ds
                (acc @ [(dev_id d, py_slice_to (req_sample_count request) ?ap)]) = Inr das"
    by (auto simp: Let_def split: if_splits)
  have new_free: "map_of (sample_position_availability rm) p = None"
    if "p \<in> set (py_slice_to (req_sample_count request) ?ap)" for p
    using that set_py_slice_to[of "req_sample_count request" ?ap] available_positions_free[of p rm d]
    by blast
  from Cons.IH[OF rec] have keys: "map fst das = map fst acc @ map dev_id (d # ds)"
    and pos: "\<forall>p \<in> set (concat (map snd das)).
       p \<in> set (concat (map snd (acc @ [(dev_id d, py_slice_to (req_sample_count request) ?ap)])))
       \<or> map_of (sample_position_availability rm) p = None"
    by simp_all
  have "p \<in> set (concat (map snd acc)) \<or> map_of (sample_position_availability rm) p = None"
    if "p \<in> set (concat (map snd das))" for p
  proof -
    from pos that have "p \<in> set (concat (map snd acc)) \<or>
        p \<in> set (py_slice_to (req_sample_count request) ?ap) \<or>
        map_of (sample_position_availability rm) p = None"
      by fastforce
    with new_free[of p] show ?thesis by auto
  qed
  with keys show ?case by (intro conjI ballI) assumption+
qed

lemma find_available_resources_Some:
  assumes "find_available_resources rm request session now = Some a"
  shows "map_of (active_allocations rm) (alloc_device_id a) = None"
    and "\<forall>p \<in> set (alloc_sample_positions a). map_of (sample_position_availability rm) p = None"
    and "alloc_task_id a = req_task_id request"
proof -
  let ?av = "get_available_devices (req_required_device_types request) session"
  from assms have body: "find_available_resources_body rm request session now = Inr (Some a)"
    by (auto simp: find_available_resources_def split: sum.splits)
  then obtain sel das where sel: "select_devices rm request ?av = Inr sel"
    and das: "device_allocations_loop rm request sel [] = Inr das"
    and ne: "das \<noteq> []"
    and a: "a = \<lparr>alloc_device_id = fst (hd das), alloc_task_id = req_task_id request,
                 alloc_sample_positions = concat (map snd das), alloc_allocated_at = now\<rparr>"
    by (auto simp: find_available_resources_body_def Let_def split: if_splits sum.splits list.splits)
  from device_allocations_loop_result[OF das]
  have keys: "map fst das = map dev_id sel"
    and free: "\<forall>p \<in> set (concat (map snd das)). map_of (sample_position_availability rm) p = None"
    by auto
  from ne keys have "sel \<noteq> []" by auto
  then obtain d ds where seld: "sel = d # ds" by (cases sel) auto
  with keys ne have "fst (hd das) = dev_id d" by (cases das) auto
  moreover have "map_of (active_allocations rm) (dev_id d) = None"
    using select_devices_free[OF sel, of d] get_available_devices_entry seld by fastforce
  ultimately show "map_of (active_allocations rm) (alloc_device_id a) = None" using a by simp
  show "\<forall>p \<in> set (alloc_sample_positions a). map_of (sample_position_availability rm) p = None"
    using a free by simp
  show "alloc_task_id a = req_task_id request" using a by simp
qed

lemma allocations_consistentI:
  assumes "distinct (map fst (active_allocations rm))"
    and "\<And>k a. (k, a) \<in> set (active_allocations rm) \<Longrightarrow> alloc_device_id a = k"
    and "\<And>k a p. (k, a) \<in> set (active_allocations rm) \<Longrightarrow> p \<in> set (alloc_sample_positions a) \<Longrightarrow>
           map_of (sample_position_availability rm) p \<noteq> None"
    and "\<And>k a k' a'. (k, a) \<in> set (active_allocations rm) \<Longrightarrow> (k', a') \<in> set (active_allocations rm) \<Longrightarrow>
           k \<noteq> k' \<Longrightarrow> set (alloc_sample_positions a) \<inter> set (alloc_sample_positions a') = {}"
  shows "allocations_consistent rm"
  unfolding allocations_consistent_def case_prod_beta
proof (intro conjI ballI impI)
  show "distinct (map fst (active_allocations rm))" by fact
next
  fix x assume "x \<in> set (active_allocations rm)"
  with assms(2)[of "fst x" "snd x"] show "alloc_device_id (snd x) = fst x" by simp
next
  fix x p assume "x \<in> set (active_allocations rm)" "p \<in> set (alloc_sample_positions (snd x))"
  with assms(3)[of "fst x" "snd x" p]
  show "map_of (sample_position_availability rm) p \<noteq> None" by simp
next
  fix x y assume "x \<in> set (active_allocations rm)" "y \<in> set (active_allocations rm)" "fst x \<noteq> fst y"
  with assms(4)[of "fst x" "snd x" "fst y" "snd y"]
  show "set (alloc_sample_positions (snd x)) \<inter> set (alloc_sample_positions (snd y)) = {}" by simp
qed

lemma consistent_distinct:
  "allocations_consistent rm \<Longrightarrow> distinct (map fst (active_allocations rm))"
  by (simp add: allocations_consistent_def)

lemma consistent_key:
  "allocations_consistent rm \<Longrightarrow> (k, a) \<in> set (active_allocations rm) \<Longrightarrow> alloc_device_id a = k"
  unfolding allocations_consistent_def by (elim conjE) (drule (1) bspec, simp)

lemma consistent_reserved:
  "allocations_consistent rm \<Longrightarrow> (k, a) \<in> set (active_allocations rm) \<Longrightarrow>
   p \<in> set (alloc_sample_positions a) \<Longrightarrow> map_of (sample_position_availability rm) p \<noteq> None"
  unfolding allocations_consistent_def by (elim conjE) (drule (1) bspec, simp)

lemma consistent_disjoint:
  assumes "allocations_consistent rm" "(k, a) \<in> set (active_allocations rm)"
    "(k', a') \<in> set (active_allocations rm)" "k \<noteq> k'"
  shows "set (alloc_sample_positions a) \<inter> set (alloc_sample_positions a') = {}"
proof -
  from assms(1) have "\<forall>x \<in> set (active_allocations rm). \<forall>y \<in> set (active_allocations rm).
      fst x \<noteq> fst y \<longrightarrow> set (alloc_sample_positions (snd x)) \<inter> set (alloc_sample_positions (snd y)) = {}"
    by (simp add: allocations_consistent_def case_prod_beta)
  from bspec[OF bspec[OF this assms(2)] assms(3)] assms(4) show ?thesis by simp
qed

lemma update_fresh: "map_of al k = None \<Longrightarrow> AList.update k v al = al @ [(k, v)]"
  by (induction al) (auto split: if_splits)

lemma map_of_reserve:
  "map_of (foldl (\<lambda>m p. AList.update p v m) m ps) q =
     (if q \<in> set ps then Some v else map_of m q)"
  by (induction ps arbitrary: m) (auto simp: update_conv')

lemma map_of_release_positions:
  "map_of (release_positions m ps) q = (if q \<in> set ps then None else map_of m q)"
  unfolding release_positions_def
  by (induction ps arbitrary: m) (auto simp: delete_conv')

lemma allocate_consistent:
  assumes inv: "allocations_consistent rm"
    and fresh: "map_of (active_allocations rm) (alloc_device_id a) = None"
    and free: "\<forall>p \<in> set (alloc_sample_positions a). map_of (sample_position_availability rm) p = None"
  shows "allocations_consistent (allocate_resources_rm rm a now)"
proof -
  let ?rm' = "allocate_resources_rm rm a now"
  have act: "active_allocations ?rm' = active_allocations rm @ [(alloc_device_id a, a)]"
    by (simp add: allocate_resources_rm_def update_fresh[OF fresh])
  have spa: "map_of (sample_position_availability ?rm') q =
      (if q \<in> set (alloc_sample_positions a) then Some (now + 3600)
       else map_of (sample_position_availability rm) q)" for q
    by (simp add: allocate_resources_rm_def map_of_reserve)
  from fresh have notin: "alloc_device_id a \<notin> fst ` set (active_allocations rm)"
    by (simp add: map_of_eq_None_iff)
  have old_reserved: "\<forall>p \<in> set (alloc_sample_positions b). map_of (sample_position_availability rm) p \<noteq> None"
    if "(k, b) \<in> set (active_allocations rm)" for k b
    using consistent_reserved[OF inv that] by blast
  have old_new_disjoint: "set (alloc_sample_positions b) \<inter> set (alloc_sample_positions a) = {}"
    if "(k, b) \<in> set (active_allocations rm)" for k b
    using old_reserved[OF that] free by blast
  have d: "distinct (map fst (active_allocations ?rm'))"
    using consistent_distinct[OF inv] notin by (simp add: act)
  have c2: "alloc_device_id b = k \<and>
        (\<forall>p \<in> set (alloc_sample_positions b). map_of (sample_position_availability ?rm') p \<noteq> None)"
    if "(k, b) \<in> set (active_allocations ?rm')" for k b
  proof (cases "(k, b) \<in> set (active_allocations rm)")
    case True
    from consistent_key[OF inv True] have "alloc_device_id b = k" .
    with old_reserved[OF True] show ?thesis by (simp add: spa)
  next
    case False
    with that act have "k = alloc_device_id a" "b = a" by auto
    then show ?thesis by (simp add: spa)
  qed
  have c3: "set (alloc_sample_positions b) \<inter> set (alloc_sample_positions b') = {}"
    if "(k, b) \<in> set (active_allocations ?rm')" "(k', b') \<in> set (active_allocations ?rm')" "k \<noteq> k'"
    for k b k' b'
  proof -
    from that(1) have m1: "(k, b) \<in> set (active_allocations rm) \<or> (k = alloc_device_id a \<and> b = a)"
      by (auto simp: act)
    from that(2) have m2: "(k', b') \<in> set (active_allocations rm) \<or> (k' = alloc_device_id a \<and> b' = a)"
      by (auto simp: act)
    show ?thesis
    proof (cases "(k, b) \<in> set (active_allocations rm)")
      case old1: True
      show ?thesis
      proof (cases "(k', b') \<in> set (active_allocations rm)")
        case True
        from consistent_disjoint[OF inv old1 True that(3)] show ?thesis .
      next
        case False
        with m2 have "b' = a" by blast
        with old_new_disjoint[OF old1] show ?thesis by simp
      qed
    next
      case False
      with m1 have new1: "k = alloc_device_id a" "b = a" by blast+
      with that(3) m2 have "(k', b') \<in> set (active_allocations rm)" by blast
      from old_new_disjoint[OF this] new1 show ?thesis by blast
    qed
  qed
  show ?thesis
    by (rule allocations_consistentI) (use d c2 c3 in blast)+
qed

lemma remove_allocation_consistent:
  assumes inv: "allocations_consistent rm"
    and a: "map_of (active_allocations rm) device_id = Some a"
  shows "allocations_consistent (remove_allocation rm device_id a)"
proof -
  let ?rm' = "remove_allocation rm device_id a"
  from inv have dist: "distinct (map fst (active_allocations rm))"
    by (rule consistent_distinct)
  have ain: "(device_id, a) \<in> set (active_allocations rm)"
    using a by (rule map_of_SomeD)
  have uniq: "x = (device_id, a)" if "x \<in> set (active_allocations rm)" "fst x = device_id" for x
    using eq_key_imp_eq_value[OF dist ain, of "snd x"] that by (cases x) simp
  have act: "set (active_allocations ?rm') = set (active_allocations rm) - {(device_id, a)}"
  proof (intro set_eqI iffI)
    fix x assume "x \<in> set (active_allocations ?rm')"
    then have "x \<in> set (active_allocations rm)" "fst x \<noteq> device_id"
      by (auto simp: remove_allocation_def AList.delete_eq)
    then show "x \<in> set (active_allocations rm) - {(device_id, a)}" by auto
  next
    fix x assume "x \<in> set (active_allocations rm) - {(device_id, a)}"
    then have xin: "x \<in> set (active_allocations rm)" and ne: "x \<noteq> (device_id, a)" by auto
    from uniq[OF xin] ne have "fst x \<noteq> device_id" by blast
    with xin show "x \<in> set (active_allocations ?rm')"
      by (auto simp: remove_allocation_def AList.delete_eq)
  qed
  have spa: "map_of (sample_position_availability ?rm') q =
      (if q \<in> set (alloc_sample_positions a) then None
       else map_of (sample_position_availability rm) q)" for q
    by (simp add: remove_allocation_def map_of_release_positions)
  have d: "distinct (map fst (active_allocations ?rm'))"
    using dist by (simp add: remove_allocation_def distinct_delete)
  have c2: "alloc_device_id b = k \<and>
        (\<forall>p \<in> set (alloc_sample_positions b). map_of (sample_position_availability ?rm') p \<noteq> None)"
    if "(k, b) \<in> set (active_allocations ?rm')" for k b
  proof -
    from that act have kb: "(k, b) \<in> set (active_allocations rm)" and ne: "(k, b) \<noteq> (device_id, a)"
      by auto
    from kb ain dist ne have "k \<noteq> device_id"
      by (metis eq_key_imp_eq_value)
    from consistent_disjoint[OF inv kb ain this]
    have disj: "set (alloc_sample_positions b) \<inter> set (alloc_sample_positions a) = {}" .
    have "alloc_device_id b = k"
      and "\<forall>p \<in> set (alloc_sample_positions b). map_of (sample_position_availability rm) p \<noteq> None"
      using consistent_key[OF inv kb] consistent_reserved[OF inv kb] by blast+
    with disj show ?thesis by (auto simp: spa)
  qed
  have c3: "set (alloc_sample_positions b) \<inter> set (alloc_sample_positions b') = {}"
    if "(k, b) \<in> set (active_allocations ?rm')" "(k', b') \<in> set (active_allocations ?rm')" "k \<noteq> k'"
    for k b k' b'
  proof -
    from that(1,2) act have "(k, b) \<in> set (active_allocations rm)" "(k', b') \<in> set (active_allocations rm)"
      by blast+
    from consistent_disjoint[OF inv this that(3)] show ?thesis .
  qed
  show ?thesis
    by (rule allocations_consistentI) (use d c2 c3 in blast)+
qed

lemma process_pending_loop_consistent:
  "allocations_consistent rm \<Longrightarrow>
   allocations_consistent (fst (process_pending_loop rm session now rs rem))"
proof (induction rs arbitrary: rm rem)
  case Nil
  then show ?case by simp
next
  case (Cons r rs)
  show ?case
  proof (cases "find_available_resources rm r session now")
    case None
    with Cons show ?thesis by simp
  next
    case (Some a)
    from find_available_resources_Some[OF Some] Cons.prems
    have "allocations_consistent (allocate_resources_rm rm a now)"
      by (intro allocate_consistent) auto
    with Cons.IH Some show ?thesis by simp
  qed
qed

lemma consistent_pending_update:
  "allocations_consistent (rm\<lparr>pending_requests := ps\<rparr>) = allocations_consistent rm"
  by (simp add: allocations_consistent_def)

lemma process_pending_requests_consistent:
  "allocations_consistent rm \<Longrightarrow> allocations_consistent (process_pending_requests rm session now)"
  using process_pending_loop_consistent[of rm session now "pending_requests rm" "[]"]
  by (auto simp: process_pending_requests_def consistent_pending_update split: prod.splits)

lemma request_resources_consistent:
  "allocations_consistent rm \<Longrightarrow>
   allocations_consistent (fst (request_resources rm request session now))"
proof (cases "find_available_resources rm request session now")
  case None
  assume "allocations_consistent rm"
  with None show ?thesis by (simp add: request_resources_def consistent_pending_update)
next
  case (Some a)
  assume "allocations_consistent rm"
  with find_available_resources_Some[OF Some]
  have "allocations_consistent (allocate_resources_rm rm a now)"
    by (intro allocate_consistent) auto
  with Some show ?thesis by (simp add: request_resources_def)
qed

lemma release_resources_consistent:
  "allocations_consistent rm \<Longrightarrow> allocations_consistent (release_resources rm device_id session now)"
  by (auto simp: release_resources_def split: option.splits
      intro: process_pending_requests_consistent remove_allocation_consistent)

lemma init_manager_consistent: "allocations_consistent init_manager"
  by (simp add: allocations_consistent_def init_manager_def)

lemma disjoint_lists_map:
  "distinct (map fst al) \<Longrightarrow>
   (\<And>x y. x \<in> set al \<Longrightarrow> y \<in> set al \<Longrightarrow> fst x \<noteq> fst y \<Longrightarrow>
       set (f (snd x)) \<inter> set (f (snd y)) = {}) \<Longrightarrow>
   disjoint_lists (map (f \<circ> snd) al)"
proof (induction al)
  case Nil
  then show ?case by simp
next
  case (Cons x al)
  obtain k a where x: "x = (k, a)" by (cases x)
  from Cons.prems(1) x have knotin: "k \<notin> fst ` set al" and dist: "distinct (map fst al)" by auto
  have "set (f a) \<inter> set (f (snd y)) = {}" if "y \<in> set al" for y
  proof -
    from that knotin have "fst x \<noteq> fst y" by (force simp: x)
    from Cons.prems(2)[OF _ _ this] that show ?thesis by (simp add: x)
  qed
  moreover have "disjoint_lists (map (f \<circ> snd) al)"
    by (rule Cons.IH[OF dist], rule Cons.prems(2)) simp_all
  ultimately show ?case using x by (simp add: comp_def)
qed


lemma consistent_mutual_exclusion:
  assumes "allocations_consistent rm"
  shows "mutual_exclusion rm"
proof -
  from assms have dist: "distinct (map fst (active_allocations rm))"
    by (rule consistent_distinct)
  have eq: "map (alloc_device_id \<circ> snd) (active_allocations rm) = map fst (active_allocations rm)"
  proof (rule map_cong[OF refl])
    fix x assume "x \<in> set (active_allocations rm)"
    with consistent_key[OF assms, of "fst x" "snd x"]
    show "(alloc_device_id \<circ> snd) x = fst x" by simp
  qed
  from dist have "distinct (map (alloc_device_id \<circ> snd) (active_allocations rm))"
    by (simp only: eq)
  moreover have "set (alloc_sample_positions (snd x)) \<inter> set (alloc_sample_positions (snd y)) = {}"
    if "x \<in> set (active_allocations rm)" "y \<in> set (active_allocations rm)" "fst x \<noteq> fst y" for x y
    using consistent_disjoint[OF assms, of "fst x" "snd x" "fst y" "snd y"] that by simp
  then have "disjoint_lists (map (alloc_sample_positions \<circ> snd) (active_allocations rm))"
    by (rule disjoint_lists_map[OF dist])
  ultimately show ?thesis using dist by (simp add: mutual_exclusion_def)
qed

lemma reachable_consistent: "reachable rm \<Longrightarrow> allocations_consistent rm"
proof (induction rule: reachable.induct)
  case reach_init
  show ?case by (rule init_manager_consistent)
next
  case (reach_request rm request session now)
  then show ?case by (simp add: request_resources_consistent)
next
  case (reach_release rm device_id session now)
  then show ?case by (simp add: release_resources_consistent)
next
  case (reach_reprocess rm session now)
  then show ?case by (simp add: process_pending_requests_consistent)
qed

text \<open>
  Claim C1. In every reachable state of the manager no two active allocations name the
  same device and no two share a sample position, and the state each operation
  (\<open>request_resources\<close>, \<open>release_resources\<close>, reprocessing the backlog) leaves
  behind has the same property.
\<close>

theorem mutual_exclusion_invariant:
  assumes "reachable rm"
  shows "mutual_exclusion rm \<and>
         mutual_exclusion (fst (request_resources rm request session now)) \<and>
         mutual_exclusion (release_resources rm device_id session now) \<and>
         mutual_exclusion (process_pending_requests rm session now)"
proof (intro conjI)
  show "mutual_exclusion rm"
    using assms by (intro consistent_mutual_exclusion reachable_consistent)
  show "mutual_exclusion (fst (request_resources rm request session now))"
    using assms by (intro consistent_mutual_exclusion reachable_consistent reach_request)
  show "mutual_exclusion (release_resources rm device_id session now)"
    using assms by (intro consistent_mutual_exclusion reachable_consistent reach_release)
  show "mutual_exclusion (process_pending_requests rm session now)"
    using assms by (intro consistent_mutual_exclusion reachable_consistent reach_reprocess)
qed

lemma full_manager_value:
  "full_manager =
     \<lparr>active_allocations =
        [(1, \<lparr>alloc_device_id = 1, alloc_task_id = 100, alloc_sample_positions = [''A1''],
              alloc_allocated_at = 0\<rparr>),
         (2, \<lparr>alloc_device_id = 2, alloc_task_id = 102, alloc_sample_positions = [''B1''],
              alloc_allocated_at = 6\<rparr>)],
      device_availability = [],
      sample_position_availability = [(''A1'', 3600), (''B1'', 3606)],
      pending_requests = []\<rparr>"
  by code_simp

lemma full_manager_reachable: "reachable full_manager"
  unfolding full_manager_def by (intro reach_request reach_init)

theorem mutual_exclusion_invariant_witness:
  "reachable full_manager \<and>
   length (active_allocations full_manager) = 2 \<and>
   mutual_exclusion full_manager \<and>
   mutual_exclusion (release_resources full_manager 1 [furnace, hotplate] 9)"
proof -
  have "length (active_allocations full_manager) = 2"
    by (simp add: full_manager_value)
  with full_manager_reachable
    mutual_exclusion_invariant [OF full_manager_reachable, of heating_request "[furnace, hotplate]" 9 1]
  show ?thesis by simp
qed

section \<open>Resource conflicts are queued\<close>

lemma device_allocations_loop_conflict:
  "\<exists>d \<in> set ds. int (length (get_available_sample_positions rm d (req_sample_count request)))
       < req_sample_count request \<Longrightarrow>
   device_allocations_loop rm request ds acc = Inl ResourceConflict"
  by (induction ds arbitrary: acc) (auto simp: Let_def)

lemma length_py_slice_to_less:
  "int (length (py_slice_to c xs)) < c \<longleftrightarrow> int (length xs) < c"
  by (auto simp: py_slice_to_def)

lemma available_positions_short:
  "int (length (get_available_sample_positions rm d c)) < c \<longleftrightarrow>
   int (length (free_position_names rm d)) < c"
  by (auto simp: get_available_sample_positions_def length_py_slice_to_less free_position_names_def)

lemma select_devices_all_conflicting:
  assumes "av \<noteq> []" and "\<forall>(k, d) \<in> set av. map_of (active_allocations rm) k \<noteq> None"
  shows "select_devices rm request av = Inl ResourceConflict"
proof -
  have "filter (\<lambda>k. map_of (active_allocations rm) k \<noteq> None) (map fst av) = map fst av"
    using assms(2) by (auto simp: filter_id_conv)
  moreover have "filter (\<lambda>(k, d). k \<notin> set (map fst av)) av = []"
    by (force simp: filter_empty_conv)
  ultimately show ?thesis using assms(1) by (simp add: select_devices_def)
qed

text \<open>
  Claim C6. When no online, available device of a required type is free of an active
  allocation, or when one of the selected devices has fewer free sample positions than
  the request asks for, \<open>request_resources\<close> returns \<open>None\<close> and leaves the manager
  as it was but for the request appended to the backlog. The model of
  \<open>request_resources\<close> is a total function: no exception leaves it.
\<close>

theorem request_resources_conflict_queues:
  assumes "filter (\<lambda>d. dev_device_type_id d \<in> set (req_required_device_types request)
                        \<and> is_online d
                        \<and> map_of (active_allocations rm) (dev_id d) = None) session = []
           \<or> (\<exists>selected_devices.
                 select_devices rm request
                   (get_available_devices (req_required_device_types request) session)
                   = Inr selected_devices
                 \<and> (\<exists>d \<in> set selected_devices.
                       int (length (free_position_names rm d)) < req_sample_count request))"
  shows "request_resources rm request session now
           = (rm\<lparr>pending_requests := pending_requests rm @ [request]\<rparr>, None)"
proof -
  let ?av = "get_available_devices (req_required_device_types request) session"
  have "find_available_resources rm request session now = None"
  proof (cases "?av = []")
    case True
    then show ?thesis
      by (simp add: find_available_resources_def find_available_resources_body_def)
  next
    case False
    from assms show ?thesis
    proof
      assume none: "filter (\<lambda>d. dev_device_type_id d \<in> set (req_required_device_types request)
                        \<and> is_online d
                        \<and> map_of (active_allocations rm) (dev_id d) = None) session = []"
      have "map_of (active_allocations rm) k \<noteq> None" if "(k, d) \<in> set ?av" for k d
      proof -
        from get_available_devices_entry[OF that] none show ?thesis
          by (auto simp: filter_empty_conv)
      qed
      then have "select_devices rm request ?av = Inl ResourceConflict"
        using False by (intro select_devices_all_conflicting) auto
      with False show ?thesis
        by (simp add: find_available_resources_def find_available_resources_body_def)
    next
      assume "\<exists>selected_devices.
                 select_devices rm request ?av = Inr selected_devices
                 \<and> (\<exists>d \<in> set selected_devices.
                       int (length (free_position_names rm d)) < req_sample_count request)"
      then obtain sel where sel: "select_devices rm request ?av = Inr sel"
        and short: "\<exists>d \<in> set sel. int (length (free_position_names rm d)) < req_sample_count request"
        by blast
      from short have "device_allocations_loop rm request sel [] = Inl ResourceConflict"
        by (intro device_allocations_loop_conflict) (simp add: available_positions_short)
      with sel False show ?thesis
        by (simp add: find_available_resources_def find_available_resources_body_def)
    qed
  qed
  then show ?thesis by (simp add: request_resources_def)
qed

theorem request_resources_conflict_queues_witness:
  "request_resources busy_manager annealing_request [furnace] 8
     = (busy_manager\<lparr>pending_requests := pending_requests busy_manager @ [annealing_request]\<rparr>, None)
   \<and> request_resources init_manager bulk_request [furnace] 0
     = (init_manager\<lparr>pending_requests := pending_requests init_manager @ [bulk_request]\<rparr>, None)"
proof -
  have h1: "filter (\<lambda>d. dev_device_type_id d \<in> set (req_required_device_types annealing_request)
                        \<and> is_online d
                        \<and> map_of (active_allocations busy_manager) (dev_id d) = None) [furnace] = []"
    by (simp add: busy_manager_value furnace_def)
  have sel: "select_devices init_manager bulk_request
               (get_available_devices (req_required_device_types bulk_request) [furnace])
             = Inr [furnace]"
    by code_simp
  have short: "int (length (free_position_names init_manager furnace)) < req_sample_count bulk_request"
    by code_simp
  have h2: "\<exists>selected_devices.
                 select_devices init_manager bulk_request
                   (get_available_devices (req_required_device_types bulk_request) [furnace])
                   = Inr selected_devices
                 \<and> (\<exists>d \<in> set selected_devices.
                       int (length (free_position_names init_manager d)) < req_sample_count bulk_request)"
    using sel short by simp
  show ?thesis
    using request_resources_conflict_queues [OF disjI1, OF h1, of 8]
      request_resources_conflict_queues [OF disjI2, OF h2, of 0]
    by simp
qed

section \<open>Release reprocesses the backlog\<close>






















section \<open>Job progress\<close>

text \<open>
  Claim C3. \<open>calculate_progress\<close> is 100 for a job without tasks whose status is
  completed, failed or cancelled, 0 for a job without tasks in any other status, and
  otherwise the smaller of 100 and the floor of
  \<open>(completed_tasks * 100 + failed_tasks * 50 + cancelled_tasks * 25) / total_tasks\<close>.
\<close>

theorem calculate_progress_formula:
  "(job_total_tasks j = 0 \<and> job_status j \<in> {''completed'', ''failed'', ''cancelled''}
      \<longrightarrow> calculate_progress j = 100) \<and>
   (job_total_tasks j = 0 \<and> job_status j \<notin> {''completed'', ''failed'', ''cancelled''}
      \<longrightarrow> calculate_progress j = 0) \<and>
   (job_total_tasks j \<noteq> 0
      \<longrightarrow> calculate_progress j =
            min 100 ((job_completed_tasks j * 100 + job_failed_tasks j * 50
                      + job_cancelled_tasks j * 25) div job_total_tasks j))"
  by (simp add: calculate_progress_def is_completed_def JOB_COMPLETED_def JOB_FAILED_def
      JOB_CANCELLED_def Let_def)

theorem calculate_progress_formula_witness:
  "calculate_progress synthesis_job = 68 \<and>
   calculate_progress (synthesis_job\<lparr>job_total_tasks := 0\<rparr>) = 0 \<and>
   calculate_progress (synthesis_job\<lparr>job_total_tasks := 0, job_status := ''failed''\<rparr>) = 100"
proof -
  have "job_total_tasks synthesis_job \<noteq> 0" by (simp add: synthesis_job_def)
  with calculate_progress_formula [of synthesis_job]
  have "calculate_progress synthesis_job = 68" by (simp add: synthesis_job_def)
  moreover from calculate_progress_formula [of "synthesis_job\<lparr>job_total_tasks := 0\<rparr>"]
  have "calculate_progress (synthesis_job\<lparr>job_total_tasks := 0\<rparr>) = 0"
    by (simp add: synthesis_job_def JOB_RUNNING_def)
  moreover from calculate_progress_formula
      [of "synthesis_job\<lparr>job_total_tasks := 0, job_status := ''failed''\<rparr>"]
  have "calculate_progress (synthesis_job\<lparr>job_total_tasks := 0, job_status := ''failed''\<rparr>) = 100"
    by simp
  ultimately show ?thesis by simp
qed

section \<open>Processing a task result\<close>

lemma length_update_first [simp]: "length (update_first P f xs) = length xs"
  by (induction xs) auto

lemma find_update_first:
  "(\<And>x. P x \<Longrightarrow> P (f x)) \<Longrightarrow> find P (update_first P f xs) = map_option f (find P xs)"
  by (induction xs) auto

lemma update_first_nth_other:
  "i < length xs \<Longrightarrow> \<not> P (xs ! i) \<Longrightarrow> update_first P f xs ! i = xs ! i"
proof (induction xs arbitrary: i)
  case Nil
  then show ?case by simp
next
  case (Cons x xs)
  then show ?case by (cases i) auto
qed

lemma find_SomeD: "find P xs = Some x \<Longrightarrow> P x \<and> x \<in> set xs"
  by (auto simp: find_Some_iff)

lemma all_filtered_iff:
  "length (filter (\<lambda>x. A x \<and> B x) xs) = length (filter A xs) \<longleftrightarrow> (\<forall>x \<in> set xs. A x \<longrightarrow> B x)"
proof (induction xs)
  case Nil
  then show ?case by simp
next
  case (Cons x xs)
  have le: "length (filter (\<lambda>x. A x \<and> B x) xs) \<le> length (filter A xs)"
    by (induction xs) auto
  with Cons show ?case by auto
qed

lemma all_completed_iff:
  "count_completed_job_tasks w j = count_job_tasks w j \<longleftrightarrow>
   (\<forall>t \<in> set (w_tasks w). task_job_id t = j \<longrightarrow> task_status t = TASK_COMPLETED)"
  by (simp add: count_completed_job_tasks_def count_job_tasks_def all_filtered_iff)

text \<open>The state between the two commits of \<open>_process_task_result\<close>.\<close>

lemma process_task_result_found:
  fixes w tid t result now
  assumes t: "first_task w tid = Some t"
  defines "w1 \<equiv> w\<lparr>w_tasks := update_first (\<lambda>x. task_id x = tid)
                      (\<lambda>_. store_result t result now) (w_tasks w)\<rparr>"
  shows "snd (process_task_result percentage w tid result now) = True"
    and "w_tasks (fst (process_task_result percentage w tid result now)) = w_tasks w1"
    and "first_task (fst (process_task_result percentage w tid result now)) tid
           = Some (store_result t result now)"
    and "first_job w (task_job_id t) = None \<Longrightarrow>
         w_jobs (fst (process_task_result percentage w tid result now)) = w_jobs w"
    and "first_job w (task_job_id t) = Some j \<Longrightarrow>
         first_job (fst (process_task_result percentage w tid result now)) (task_job_id t)
           = Some (update_job_progress percentage w1 j now)"
proof -
  let ?r = "process_task_result percentage w tid result now"
  have jid: "task_job_id (store_result t result now) = task_job_id t"
    by (simp add: store_result_def)
  have tid: "task_id (store_result t result now) = tid"
    using find_SomeD[OF t[unfolded first_task_def]] by (simp add: store_result_def)
  have fj: "first_job w1 i = first_job w i" for i
    by (simp add: first_job_def w1_def)
  show "snd ?r = True"
    using t by (simp add: process_task_result_def Let_def split: option.splits)
  show tasks: "w_tasks (fst ?r) = w_tasks w1"
    using t by (simp add: process_task_result_def Let_def w1_def split: option.splits)
  have "find (\<lambda>x. task_id x = tid) (w_tasks w1) = Some (store_result t result now)"
    unfolding w1_def using t tid by (simp add: find_update_first first_task_def)
  then show "first_task (fst ?r) tid = Some (store_result t result now)"
    by (simp add: first_task_def tasks)
  show "w_jobs (fst ?r) = w_jobs w" if "first_job w (task_job_id t) = None"
    using t that fj by (simp add: process_task_result_def Let_def jid w1_def[symmetric])
      (simp add: w1_def)
  show "first_job (fst ?r) (task_job_id t) = Some (update_job_progress percentage w1 j now)"
    if j: "first_job w (task_job_id t) = Some j"
  proof -
    from find_SomeD[OF j[unfolded first_job_def]] have jj: "job_id j = task_job_id t" by simp
    have idj: "job_id (update_job_progress percentage w1 j now) = job_id j"
      by (simp add: update_job_progress_def Let_def)
    have "w_jobs (fst ?r) = update_first (\<lambda>x. job_id x = job_id j)
            (\<lambda>_. update_job_progress percentage w1 j now) (w_jobs w)"
      using t j fj by (simp add: process_task_result_def Let_def jid w1_def[symmetric])
        (simp add: w1_def)
    then show ?thesis
      using j idj jj by (simp add: first_job_def find_update_first)
  qed
qed

lemma lab_world_sintering: "first_task lab_world 100 = Some sintering_task"
  by code_simp

lemma lab_world_job: "first_job lab_world (task_job_id sintering_task) = Some two_step_job"
  by code_simp

text \<open>
  Claim C4, as the code has it. When the result of a task is processed and the task and
  its job are found: if afterwards every task of the job has the status completed, the
  job's status is set to completed and its \<open>completed_at\<close> is stamped; otherwise (some
  task of the job is failed, cancelled or not finished) the job's status and
  \<open>completed_at\<close> are left as they were.
\<close>

theorem job_completed_when_all_tasks_completed:
  assumes "first_task w tid = Some t" and "first_job w (task_job_id t) = Some j"
  shows "case process_task_result percentage w tid result now of
           (w', ok) \<Rightarrow>
             ok \<and>
             (\<exists>j'. first_job w' (task_job_id t) = Some j' \<and>
                (if \<forall>x \<in> set (w_tasks w'). task_job_id x = task_job_id t
                                               \<longrightarrow> task_status x = TASK_COMPLETED
                 then job_status j' = JOB_COMPLETED \<and> job_completed_at j' = Some now
                 else job_status j' = job_status j \<and> job_completed_at j' = job_completed_at j))"
proof -
  let ?r = "process_task_result percentage w tid result now"
  let ?w1 = "w\<lparr>w_tasks := update_first (\<lambda>x. task_id x = tid)
                      (\<lambda>_. store_result t result now) (w_tasks w)\<rparr>"
  let ?j' = "update_job_progress percentage ?w1 j now"
  from find_SomeD[OF assms(2)[unfolded first_job_def]] have jj: "job_id j = task_job_id t" by simp
  have ok: "snd ?r = True" by (rule process_task_result_found(1)[OF assms(1)])
  have tasks: "w_tasks (fst ?r) = w_tasks ?w1" by (rule process_task_result_found(2)[OF assms(1)])
  have job: "first_job (fst ?r) (task_job_id t) = Some ?j'"
    by (rule process_task_result_found(5)[OF assms(1) assms(2)])
  have all: "count_completed_job_tasks ?w1 (job_id j) = count_job_tasks ?w1 (job_id j) \<longleftrightarrow>
      (\<forall>x \<in> set (w_tasks (fst ?r)). task_job_id x = task_job_id t \<longrightarrow> task_status x = TASK_COMPLETED)"
    by (simp only: all_completed_iff tasks jj)
  have "if \<forall>x \<in> set (w_tasks (fst ?r)). task_job_id x = task_job_id t
                                               \<longrightarrow> task_status x = TASK_COMPLETED
        then job_status ?j' = JOB_COMPLETED \<and> job_completed_at ?j' = Some now
        else job_status ?j' = job_status j \<and> job_completed_at ?j' = job_completed_at j"
    unfolding all[symmetric] by (simp add: update_job_progress_def Let_def)
  with ok job show ?thesis by (cases ?r) auto
qed

theorem job_completed_when_all_tasks_completed_witness:
  "first_task lab_world 100 = Some sintering_task \<and>
   first_job lab_world (task_job_id sintering_task) = Some two_step_job \<and>
   (\<exists>j'. first_job (fst (process_task_result exact_percentage lab_world 100 completed_result 90))
             (task_job_id sintering_task) = Some j' \<and>
          job_status j' = JOB_COMPLETED \<and> job_completed_at j' = Some 90) \<and>
   (\<exists>j'. first_job (fst (process_task_result exact_percentage lab_world 100 failed_result 90))
             (task_job_id sintering_task) = Some j' \<and>
          job_status j' = job_status two_step_job \<and>
          job_completed_at j' = job_completed_at two_step_job)"
proof -
  let ?good = "fst (process_task_result exact_percentage lab_world 100 completed_result 90)"
  let ?bad = "fst (process_task_result exact_percentage lab_world 100 failed_result 90)"
  have all_good: "\<forall>x \<in> set (w_tasks ?good).
      task_job_id x = task_job_id sintering_task \<longrightarrow> task_status x = TASK_COMPLETED"
    by code_simp
  have not_all_bad: "\<not> (\<forall>x \<in> set (w_tasks ?bad).
      task_job_id x = task_job_id sintering_task \<longrightarrow> task_status x = TASK_COMPLETED)"
    by code_simp
  from job_completed_when_all_tasks_completed [OF lab_world_sintering lab_world_job,
      where percentage = exact_percentage and result = completed_result and now = 90,
      unfolded case_prod_beta] all_good
  have "\<exists>j'. first_job ?good (task_job_id sintering_task) = Some j' \<and>
          job_status j' = JOB_COMPLETED \<and> job_completed_at j' = Some 90"
    by auto
  moreover
  from job_completed_when_all_tasks_completed [OF lab_world_sintering lab_world_job,
      where percentage = exact_percentage and result = failed_result and now = 90,
      unfolded case_prod_beta] not_all_bad
  have "\<exists>j'. first_job ?bad (task_job_id sintering_task) = Some j' \<and>
          job_status j' = job_status two_step_job \<and>
          job_completed_at j' = job_completed_at two_step_job"
    by auto
  ultimately show ?thesis using lab_world_sintering lab_world_job by blast
qed

text \<open>
  The claim as stated fails: after the failed result of the sintering task both tasks of
  the job are in a terminal state (completed and failed), and the job is still running
  with no \<open>completed_at\<close>.
\<close>

theorem job_not_completed_after_failed_task:
  "map task_status (w_tasks (fst (process_task_result exact_percentage lab_world 100 failed_result 90)))
     = [''completed'', ''failed''] \<and>
   map job_status (w_jobs (fst (process_task_result exact_percentage lab_world 100 failed_result 90)))
     = [''running''] \<and>
   map job_completed_at (w_jobs (fst (process_task_result exact_percentage lab_world 100 failed_result 90)))
     = [None]"
  by code_simp

text \<open>
  Claim C8 at a failing input. The sintering task is the second task of a job whose
  first task is completed and whose \<open>failed_tasks\<close> is 0; its implementation returns
  the status failed with no error message. \<open>_process_task_result\<close> marks the task
  failed, stamps \<open>completed_at\<close> and stores the message \<open>Task failed\<close>, but the job's
  \<open>failed_tasks\<close> is still 0 although one of its tasks is now failed, and the
  progress is 50, computed from the completed tasks alone. The other failure path,
  \<open>_handle_task_error\<close>, counts the failure for the same task: it raises
  \<open>failed_tasks\<close> to 1 and the progress to 75.
\<close>

theorem failed_result_leaves_failed_tasks_unchanged:
  "res_status silent_failure \<noteq> Some ''completed'' \<and>
   map task_status (w_tasks (fst (process_task_result exact_percentage lab_world 100 silent_failure 90)))
     = [''completed'', ''failed''] \<and>
   map task_completed_at
       (w_tasks (fst (process_task_result exact_percentage lab_world 100 silent_failure 90)))
     = [Some 30, Some 90] \<and>
   map task_error_message
       (w_tasks (fst (process_task_result exact_percentage lab_world 100 silent_failure 90)))
     = [None, Some ''Task failed''] \<and>
   length (filter (\<lambda>x. task_job_id x = job_id two_step_job \<and> task_status x = TASK_FAILED)
             (w_tasks (fst (process_task_result exact_percentage lab_world 100 silent_failure 90))))
     = 1 \<and>
   map job_failed_tasks
       (w_jobs (fst (process_task_result exact_percentage lab_world 100 silent_failure 90)))
     = [0] \<and>
   map job_progress_percentage
       (w_jobs (fst (process_task_result exact_percentage lab_world 100 silent_failure 90)))
     = [50] \<and>
   map job_failed_tasks (w_jobs (handle_task_error lab_world 100 ''Task failed'' 90)) = [1] \<and>
   map job_progress_percentage (w_jobs (handle_task_error lab_world 100 ''Task failed'' 90))
     = [75]"
  by code_simp

section \<open>Cancelling a task\<close>

lemma release_task_resources_jobs: "w_jobs (release_task_resources w tid) = w_jobs w"
  by (simp add: release_task_resources_def split: option.splits)

text \<open>
  Claim C10, as the code has it. \<open>cancel_task\<close> on a running task never changes a job
  row (so the \<open>cancelled_tasks\<close> counter and the \<open>progress_percentage\<close> of the owning
  job stay as they were), a device row or the row of another task, and the release it
  may have scheduled does not change a job row either when it runs. Called with an event
  loop running, it returns \<open>True\<close>, sets the task's status to cancelled, stamps its
  \<open>completed_at\<close>, schedules the release of the task's device and publishes the
  cancelled event. Called without a running event loop, it returns \<open>False\<close> and
  changes nothing at all.
\<close>

theorem cancel_task_leaves_job_unchanged:
  assumes "first_task w tid = Some t" and "task_status t = TASK_RUNNING"
  shows "case cancel_task loop_running w tid now of
           (w', ok) \<Rightarrow>
             w_jobs w' = w_jobs w \<and>
             map job_cancelled_tasks (w_jobs w') = map job_cancelled_tasks (w_jobs w) \<and>
             map job_progress_percentage (w_jobs w') = map job_progress_percentage (w_jobs w) \<and>
             w_devices w' = w_devices w \<and>
             length (w_tasks w') = length (w_tasks w) \<and>
             (\<forall>i < length (w_tasks w).
                 task_id (w_tasks w ! i) \<noteq> tid \<longrightarrow> w_tasks w' ! i = w_tasks w ! i) \<and>
             w_jobs (release_task_resources w' tid) = w_jobs w \<and>
             (if loop_running
              then ok \<and>
                   first_task w' tid
                     = Some (t\<lparr>task_status := TASK_CANCELLED, task_completed_at := Some now\<rparr>) \<and>
                   w_scheduled w' = w_scheduled w @ [tid] \<and>
                   w_events w' = w_events w @ [TaskEvent tid ''cancelled'']
              else \<not> ok \<and> w' = w)"
proof (cases loop_running)
  case False
  with assms have "cancel_task loop_running w tid now = (w, False)"
    by (simp add: cancel_task_def)
  with False show ?thesis by (simp add: release_task_resources_jobs)
next
  case True
  let ?t' = "t\<lparr>task_status := TASK_CANCELLED, task_completed_at := Some now\<rparr>"
  let ?w' = "w\<lparr>w_tasks := update_first (\<lambda>x. task_id x = tid) (\<lambda>_. ?t') (w_tasks w),
               w_scheduled := w_scheduled w @ [tid],
               w_events := w_events w @ [TaskEvent tid ''cancelled'']\<rparr>"
  from assms True have r: "cancel_task loop_running w tid now = (?w', True)"
    by (simp add: cancel_task_def)
  from find_SomeD[OF assms(1)[unfolded first_task_def]] have tid: "task_id t = tid" by simp
  have "first_task ?w' tid = Some ?t'"
    using assms(1) tid by (simp add: first_task_def find_update_first)
  moreover have "\<forall>i < length (w_tasks w).
                 task_id (w_tasks w ! i) \<noteq> tid \<longrightarrow> w_tasks ?w' ! i = w_tasks w ! i"
    by (simp add: update_first_nth_other)
  moreover have "w_jobs (release_task_resources ?w' tid) = w_jobs w"
    by (simp add: release_task_resources_jobs)
  ultimately show ?thesis unfolding r using True by simp
qed

theorem cancel_task_leaves_job_unchanged_witness:
  "first_task lab_world 100 = Some sintering_task \<and>
   task_status sintering_task = TASK_RUNNING \<and>
   snd (cancel_task True lab_world 100 90) \<and>
   map task_status (w_tasks (fst (cancel_task True lab_world 100 90)))
     = [''completed'', ''cancelled''] \<and>
   w_jobs (fst (cancel_task True lab_world 100 90)) = [two_step_job] \<and>
   w_scheduled (fst (cancel_task True lab_world 100 90)) = [100] \<and>
   fst (cancel_task False lab_world 100 90) = lab_world"
proof -
  have h: "task_status sintering_task = TASK_RUNNING"
    by (simp add: sintering_task_def)
  have st: "map task_status (w_tasks (fst (cancel_task True lab_world 100 90)))
      = [''completed'', ''cancelled'']"
    by code_simp
  have lw: "w_jobs lab_world = [two_step_job]" "w_scheduled lab_world = []"
    by (simp_all add: lab_world_def)
  from cancel_task_leaves_job_unchanged [OF lab_world_sintering h,
      where now = 90 and loop_running = True, unfolded case_prod_beta lw]
  have "snd (cancel_task True lab_world 100 90)"
    and "w_jobs (fst (cancel_task True lab_world 100 90)) = [two_step_job]"
    and "w_scheduled (fst (cancel_task True lab_world 100 90)) = [100]"
    by simp_all
  moreover
  from cancel_task_leaves_job_unchanged [OF lab_world_sintering h,
      where now = 90 and loop_running = False, unfolded case_prod_beta]
  have "fst (cancel_task False lab_world 100 90) = lab_world"
    by simp
  ultimately show ?thesis using lab_world_sintering h st by simp
qed

text \<open>
  The claim as stated fails: called without a running event loop on the running
  sintering task, \<open>cancel_task\<close> returns \<open>False\<close>; the task is still running, has no
  \<open>completed_at\<close>, and no release is scheduled.
\<close>

theorem cancel_task_outside_event_loop:
  "first_task lab_world 100 = Some sintering_task \<and>
   task_status sintering_task = TASK_RUNNING \<and>
   \<not> snd (cancel_task False lab_world 100 90) \<and>
   map task_status (w_tasks (fst (cancel_task False lab_world 100 90)))
     = [''completed'', ''running''] \<and>
   map task_completed_at (w_tasks (fst (cancel_task False lab_world 100 90)))
     = [Some 30, None] \<and>
   w_scheduled (fst (cancel_task False lab_world 100 90)) = []"
  by code_simp

section \<open>The scheduler's resource check\<close>

text \<open>
  Claim C5, as the code has it. The resource-availability check of the scheduler holds
  exactly when the task has a template, and, if the template requires device types, the
  online and available devices of those types are at least as many as the required
  types (devices in the active-allocation table are counted too, and the count is made
  whether or not a device is assigned), and, if a device is assigned to the task, that
  device exists, is online and available and is not in the active-allocation table.
\<close>

theorem check_resource_availability_iff:
  "fst (check_resource_availability sched w t) \<longleftrightarrow>
     (\<exists>template. task_template t = Some template \<and>
        (tt_required_device_types template \<noteq> [] \<longrightarrow>
           length (tt_required_device_types template)
             \<le> length (filter (\<lambda>d. dev_device_type_id d \<in> set (tt_required_device_types template)
                                      \<and> is_online d) (w_devices w))) \<and>
        (\<forall>assigned_device_id. task_assigned_device_id t = Some assigned_device_id \<longrightarrow>
           (\<exists>d. first_device w assigned_device_id = Some d \<and> is_online d \<and>
                map_of (sched_active_allocations sched) (dev_id d) = None)))"
  by (auto simp: check_resource_availability_def is_online_def Let_def not_less
      split: option.splits)

theorem check_resource_availability_iff_witness:
  "fst (check_resource_availability fresh_scheduler idle_world drying_task) \<and>
   \<not> fst (check_resource_availability stale_scheduler idle_world drying_task)"
proof -
  have tmpl: "task_template drying_task
      = Some \<lparr>tt_required_device_types = [10], tt_estimated_duration = Some 20\<rparr>"
    "task_assigned_device_id drying_task = Some 1"
    by (simp_all add: drying_task_def)
  have dev: "first_device idle_world 1 = Some furnace" "is_online furnace" "dev_id furnace = 1"
    "filter (\<lambda>d. dev_device_type_id d = 10 \<and> is_online d) (w_devices idle_world) = [furnace]"
    by code_simp+
  have act: "map_of (sched_active_allocations fresh_scheduler) 1 = None"
    "map_of (sched_active_allocations stale_scheduler) 1 \<noteq> None"
    by (simp_all add: fresh_scheduler_def stale_scheduler_def)
  show ?thesis
    using check_resource_availability_iff [of fresh_scheduler idle_world drying_task]
      check_resource_availability_iff [of stale_scheduler idle_world drying_task]
    by (simp add: tmpl dev act del: One_nat_def)
qed

text \<open>
  The claim as stated fails: for the mixing task, which has no assigned device and
  requires one device type, the only online and available device of that type is in the
  active-allocation table, so no device is left when allocated ones are excluded, and the
  check holds all the same.
\<close>

theorem allocated_device_still_counted:
  "fst (check_resource_availability stale_scheduler idle_world mixing_task) \<and>
   task_assigned_device_id mixing_task = None \<and>
   map_option tt_required_device_types (task_template mixing_task) = Some [10] \<and>
   \<not> length [10 :: uuid]
       \<le> length (filter (\<lambda>d. dev_device_type_id d \<in> set [10] \<and> is_online d
                        \<and> map_of (sched_active_allocations stale_scheduler) (dev_id d) = None)
                   (w_devices idle_world))"
  by code_simp

section \<open>Tasks without an assigned device\<close>

lemma update_first_nth_unless_found:
  "find P xs = Some x \<Longrightarrow> i < length xs \<Longrightarrow> xs ! i \<noteq> x \<Longrightarrow> update_first P f xs ! i = xs ! i"
proof (induction xs arbitrary: i)
  case Nil
  then show ?case by simp
next
  case (Cons y ys)
  show ?case
  proof (cases "P y")
    case True
    with Cons.prems show ?thesis by (cases i) auto
  next
    case False
    with Cons show ?thesis by (cases i) auto
  qed
qed

lemma allocate_resources_unassigned_rows:
  assumes "allocate_resources sched w tid now = ((sched', w'), started)"
  shows "length (w_tasks w') = length (w_tasks w)"
    and "i < length (w_tasks w) \<Longrightarrow> task_assigned_device_id (w_tasks w ! i) = None \<Longrightarrow>
         w_tasks w' ! i = w_tasks w ! i"
proof -
  show "length (w_tasks w') = length (w_tasks w)"
    using assms by (auto simp: allocate_resources_def split: option.splits)
  show "w_tasks w' ! i = w_tasks w ! i"
    if i: "i < length (w_tasks w)" and none: "task_assigned_device_id (w_tasks w ! i) = None"
  proof (cases "w_tasks w' = w_tasks w")
    case True
    then show ?thesis by simp
  next
    case False
    with assms obtain t did where t: "first_task w tid = Some t"
      and did: "task_assigned_device_id t = Some did"
      and tasks: "w_tasks w' = update_first (\<lambda>x. task_id x = tid)
                    (\<lambda>_. t\<lparr>task_status := TASK_RUNNING, task_started_at := Some now\<rparr>) (w_tasks w)"
      by (auto simp: allocate_resources_def split: option.splits)
    from none did have "w_tasks w ! i \<noteq> t" by auto
    from update_first_nth_unless_found[OF t[unfolded first_task_def] i this] tasks
    show ?thesis by simp
  qed
qed

lemma scheduler_pass_loop_unassigned_rows:
  assumes "scheduler_pass_loop sched w now tids = (sched', w')"
  shows "length (w_tasks w') = length (w_tasks w) \<and>
         (\<forall>i < length (w_tasks w). task_assigned_device_id (w_tasks w ! i) = None \<longrightarrow>
             w_tasks w' ! i = w_tasks w ! i)"
  using assms
proof (induction tids arbitrary: sched w)
  case Nil
  then show ?case by simp
next
  case (Cons tid tids)
  show ?case
  proof (cases "sd_can_run (can_task_run sched w tid now)")
    case False
    with Cons.prems have "scheduler_pass_loop sched w now tids = (sched', w')" by simp
    from Cons.IH[OF this] show ?thesis .
  next
    case True
    obtain s1 w1 started where alloc: "allocate_resources sched w tid now = ((s1, w1), started)"
      by (metis prod.exhaust)
    with True Cons.prems have "scheduler_pass_loop s1 w1 now tids = (sched', w')" by simp
    from Cons.IH[OF this] have len: "length (w_tasks w') = length (w_tasks w1)"
      and rows: "\<forall>i < length (w_tasks w1). task_assigned_device_id (w_tasks w1 ! i) = None \<longrightarrow>
             w_tasks w' ! i = w_tasks w1 ! i"
      by simp_all
    note a = allocate_resources_unassigned_rows[OF alloc]
    have "w_tasks w' ! i = w_tasks w ! i"
      if "i < length (w_tasks w)" "task_assigned_device_id (w_tasks w ! i) = None" for i
    proof -
      from a(2)[OF that] have same: "w_tasks w1 ! i = w_tasks w ! i" .
      with that a(1) rows have "w_tasks w' ! i = w_tasks w1 ! i" by simp
      with same show ?thesis by simp
    qed
    with len a(1) show ?thesis by simp
  qed
qed

text \<open>
  Claim C9. For a task that has no assigned device, or whose assigned device is not in
  the store, \<open>allocate_resources\<close> of the scheduler returns \<open>False\<close> and returns the
  scheduler and the store as they were: no task or device row, no allocation and no
  event changes. And a pass of the scheduling loop leaves every task row without an
  assigned device exactly as it was, whatever the scheduling decisions are: such a task is
  never set to running by the loop.
\<close>

theorem allocate_resources_without_device:
  assumes "first_task w tid = Some t"
    and "task_assigned_device_id t = None \<or>
         (\<exists>assigned_device_id. task_assigned_device_id t = Some assigned_device_id
                                \<and> first_device w assigned_device_id = None)"
  shows "allocate_resources sched w tid now = ((sched, w), False) \<and>
         length (w_tasks (snd (scheduler_pass sched w now))) = length (w_tasks w) \<and>
         (\<forall>i < length (w_tasks w). task_assigned_device_id (w_tasks w ! i) = None \<longrightarrow>
             w_tasks (snd (scheduler_pass sched w now)) ! i = w_tasks w ! i)"
proof -
  from assms have "allocate_resources sched w tid now = ((sched, w), False)"
    by (auto simp: allocate_resources_def)
  moreover obtain sched' w' where pass: "scheduler_pass sched w now = (sched', w')"
    by (cases "scheduler_pass sched w now")
  from scheduler_pass_loop_unassigned_rows[OF pass[unfolded scheduler_pass_def]] pass
  have "length (w_tasks (snd (scheduler_pass sched w now))) = length (w_tasks w) \<and>
         (\<forall>i < length (w_tasks w). task_assigned_device_id (w_tasks w ! i) = None \<longrightarrow>
             w_tasks (snd (scheduler_pass sched w now)) ! i = w_tasks w ! i)"
    by simp
  ultimately show ?thesis by simp
qed

lemma idle_world_mixing: "first_task idle_world 101 = Some mixing_task"
  by code_simp

theorem allocate_resources_without_device_witness:
  "first_task idle_world 101 = Some mixing_task \<and>
   task_assigned_device_id mixing_task = None \<and>
   sd_can_run (can_task_run fresh_scheduler idle_world 101 50) \<and>
   allocate_resources fresh_scheduler idle_world 101 50 = ((fresh_scheduler, idle_world), False) \<and>
   w_tasks (snd (scheduler_pass fresh_scheduler idle_world 50)) ! 0 = mixing_task \<and>
   map task_status (w_tasks (snd (scheduler_pass fresh_scheduler idle_world 50)))
     = [''pending'', ''running'']"
proof -
  have h: "task_assigned_device_id mixing_task = None"
    by (simp add: mixing_task_def)
  have run: "sd_can_run (can_task_run fresh_scheduler idle_world 101 50)"
    by code_simp
  have st: "map task_status (w_tasks (snd (scheduler_pass fresh_scheduler idle_world 50)))
     = [''pending'', ''running'']"
    by code_simp
  have row: "w_tasks idle_world ! 0 = mixing_task" "0 < length (w_tasks idle_world)"
    by (simp_all add: idle_world_def)
  from allocate_resources_without_device [OF idle_world_mixing disjI1, OF h,
      where sched = fresh_scheduler and now = 50] row h
  have "allocate_resources fresh_scheduler idle_world 101 50 = ((fresh_scheduler, idle_world), False)"
    and "w_tasks (snd (scheduler_pass fresh_scheduler idle_world 50)) ! 0 = mixing_task"
    by auto
  with idle_world_mixing h run st show ?thesis by simp
qed

end
